theory Spec2Isabelle
  imports Complex_Main
begin

section \<open>Scalars\<close>

text \<open>
  Tensor elements and Python floats are modelled as real numbers: rounding, infinities
  and NaN of the floating-point formats are outside the model.
\<close>

subsection \<open>inverse\_sigmoid\<close>

definition clamp_min :: "real \<Rightarrow> real \<Rightarrow> real" where
  \<comment> \<open>\<open>x.clamp(min=lo)\<close>\<close>
  "clamp_min x lo = max x lo"

definition clamp_min_max :: "real \<Rightarrow> real \<Rightarrow> real \<Rightarrow> real" where
  \<comment> \<open>\<open>x.clamp(min=lo, max=hi)\<close>\<close>
  "clamp_min_max x lo hi = min (max x lo) hi"

definition sigmoid :: "real \<Rightarrow> real" where
  \<comment> \<open>\<open>torch.sigmoid\<close>, the logistic function\<close>
  "sigmoid x = 1 / (1 + exp (- x))"

definition inverse_sigmoid_x1 :: "real \<Rightarrow> real \<Rightarrow> real" where
  \<comment> \<open>the numerator \<open>x1\<close> of the source\<close>
  "inverse_sigmoid_x1 x eps = clamp_min (clamp_min_max x 0 1) eps"

definition inverse_sigmoid_x2 :: "real \<Rightarrow> real \<Rightarrow> real" where
  \<comment> \<open>the denominator \<open>x2\<close> of the source\<close>
  "inverse_sigmoid_x2 x eps = clamp_min (1 - clamp_min_max x 0 1) eps"

definition inverse_sigmoid :: "real \<Rightarrow> real \<Rightarrow> real" where
  "inverse_sigmoid x eps = ln (inverse_sigmoid_x1 x eps / inverse_sigmoid_x2 x eps)"

section \<open>Errors\<close>

text \<open>
  The exceptions that the modelled code can raise; a computation that may raise returns
  \<open>error + 'a\<close>, and \<open>bindE\<close> sequences two of them as Python's statement order does.
\<close>

datatype error = IndexError | ValueError | RuntimeError

definition bindE :: "error + 'a \<Rightarrow> ('a \<Rightarrow> error + 'b) \<Rightarrow> error + 'b" where
  "bindE m f = (case m of Inl e \<Rightarrow> Inl e | Inr v \<Rightarrow> f v)"

section \<open>Tensors\<close>

text \<open>
  A tensor is its shape and its elements in row-major order, as a contiguous
  \<open>torch.Tensor\<close> holds them. \<open>indices shp\<close> lists the multi-indices of a shape in that
  order and \<open>ravel\<close> gives the position of a multi-index, so that \<open>mk shp f\<close> is the
  tensor of shape \<open>shp\<close> with element \<open>f idx\<close> at \<open>idx\<close>. \<open>tget\<close> reads an element and
  is \<open>None\<close> out of range; \<open>tget0\<close> is the unguarded read that the operations use on
  indices they have computed.
\<close>

record tensor =
  shape :: "nat list"
  data :: "real list"

fun indices :: "nat list \<Rightarrow> nat list list" where
  "indices [] = [[]]"
| "indices (n # ns) = concat (map (\<lambda>i. map ((#) i) (indices ns)) [0..<n])"

fun ravel :: "nat list \<Rightarrow> nat list \<Rightarrow> nat" where
  "ravel (n # ns) (i # is) = i * prod_list ns + ravel ns is"
| "ravel _ _ = 0"

definition valid_index :: "nat list \<Rightarrow> nat list \<Rightarrow> bool" where
  "valid_index shp idx = list_all2 (<) idx shp"

definition mk :: "nat list \<Rightarrow> (nat list \<Rightarrow> real) \<Rightarrow> tensor" where
  "mk shp f = \<lparr>shape = shp, data = map f (indices shp)\<rparr>"

definition tget0 :: "tensor \<Rightarrow> nat list \<Rightarrow> real" where
  "tget0 t idx = data t ! ravel (shape t) idx"

definition tget :: "tensor \<Rightarrow> nat list \<Rightarrow> real option" where
  "tget t idx = (if valid_index (shape t) idx then Some (tget0 t idx) else None)"

text \<open>
  Broadcasting and repeating read the source at the index taken modulo the source's
  sizes, over the trailing axes: an axis of size 1 is read at 0, an axis that is repeated
  wraps around.
\<close>

definition bidx :: "nat list \<Rightarrow> nat list \<Rightarrow> nat list" where
  "bidx shp idx = map2 (\<lambda>i n. i mod n) (drop (length idx - length shp) idx) shp"

subsection \<open>The operations of torch that the module calls\<close>

text \<open>
  Each operation follows the documented behaviour of the torch function of its name, and
  raises where torch raises. \<open>linspace\<close> has \<open>steps\<close> values from \<open>start\<close> to \<open>stop\<close>
  at equal distance (the single value \<open>start\<close> for one step). \<open>reshape\<close> stands for
  \<open>view\<close> and \<open>reshape\<close>: the elements stay in place, one size may be \<open>-1\<close> and is then
  inferred (\<open>infer_size\<close>). In \<open>expand\<close> a size \<open>-1\<close> keeps the axis. \<open>stack_last\<close> is
  \<open>torch.stack(ts, -1)\<close>, \<open>flatten s\<close> is \<open>flatten(start_dim=s)\<close>, \<open>meshgrid\<close> has the
  default \<open>ij\<close> indexing.
\<close>

definition linspace_val :: "real \<Rightarrow> real \<Rightarrow> nat \<Rightarrow> nat \<Rightarrow> real" where
  "linspace_val start stop steps i =
     (if steps = 1 then start else start + real i * ((stop - start) / real (steps - 1)))"

definition linspace :: "real \<Rightarrow> real \<Rightarrow> nat \<Rightarrow> tensor" where
  "linspace start stop steps = mk [steps] (\<lambda>idx. linspace_val start stop steps (idx ! 0))"

definition infer_size :: "int list \<Rightarrow> nat \<Rightarrow> error + nat list" where
  "infer_size sizes n =
     (let newsize = prod_list (map nat (filter (\<lambda>s. s \<noteq> - 1) sizes)) in
      if \<exists>s \<in> set sizes. s < - 1 then Inl RuntimeError
      else if 1 < length (filter (\<lambda>s. s = - 1) sizes) then Inl RuntimeError
      else if - 1 \<in> set sizes then
        (if 0 < newsize \<and> n mod newsize = 0
         then Inr (map (\<lambda>s. if s = - 1 then n div newsize else nat s) sizes)
         else Inl RuntimeError)
      else if n = newsize then Inr (map nat sizes)
      else Inl RuntimeError)"

definition reshape :: "int list \<Rightarrow> tensor \<Rightarrow> error + tensor" where
  "reshape sizes t =
     bindE (infer_size sizes (prod_list (shape t))) (\<lambda>shp. Inr \<lparr>shape = shp, data = data t\<rparr>)"

definition expand :: "int list \<Rightarrow> tensor \<Rightarrow> error + tensor" where
  "expand sizes t =
     (let k = length sizes; r = length (shape t) in
      if k < r then Inl RuntimeError
      else
        let pad = replicate (k - r) 1 @ shape t;
            target = map2 (\<lambda>s p. if s = - 1 then p else nat s) sizes pad
        in if (\<exists>s \<in> set sizes. s < - 1) \<or> - 1 \<in> set (take (k - r) sizes)
              \<or> \<not> list_all2 (\<lambda>p q. p = q \<or> p = 1) pad target
           then Inl RuntimeError
           else Inr (mk target (\<lambda>idx. tget0 t (bidx (shape t) idx))))"

definition repeat :: "nat list \<Rightarrow> tensor \<Rightarrow> error + tensor" where
  "repeat reps t =
     (let k = length reps; r = length (shape t) in
      if k < r then Inl RuntimeError
      else
        let pad = replicate (k - r) 1 @ shape t
        in Inr (mk (map2 (*) pad reps) (\<lambda>idx. tget0 t (bidx (shape t) idx))))"

definition div_scalar :: "tensor \<Rightarrow> real \<Rightarrow> tensor" where
  "div_scalar t c = \<lparr>shape = shape t, data = map (\<lambda>v. v / c) (data t)\<rparr>"

definition mul_scalar :: "tensor \<Rightarrow> real \<Rightarrow> tensor" where
  "mul_scalar t c = \<lparr>shape = shape t, data = map (\<lambda>v. v * c) (data t)\<rparr>"

definition stack_last :: "tensor list \<Rightarrow> error + tensor" where
  "stack_last ts =
     (case ts of [] \<Rightarrow> Inl RuntimeError
      | t # _ \<Rightarrow>
          if \<exists>u \<in> set ts. shape u \<noteq> shape t then Inl RuntimeError
          else Inr (mk (shape t @ [length ts]) (\<lambda>idx. tget0 (ts ! last idx) (butlast idx))))"

text \<open>
  \<open>permute dims\<close>: axis \<open>a\<close> of the result is axis \<open>dims ! a\<close> of the source, so the
  source index has at position \<open>b\<close> the result index's entry at the position of \<open>b\<close> in
  \<open>dims\<close>.
\<close>

fun index_of :: "nat list \<Rightarrow> nat \<Rightarrow> nat" where
  "index_of [] x = 0"
| "index_of (y # ys) x = (if x = y then 0 else Suc (index_of ys x))"

definition permute :: "nat list \<Rightarrow> tensor \<Rightarrow> error + tensor" where
  "permute dims t =
     (let r = length (shape t) in
      if sort dims \<noteq> [0..<r] then Inl RuntimeError
      else Inr (mk (map (\<lambda>d. shape t ! d) dims)
                   (\<lambda>idx. tget0 t (map (\<lambda>b. idx ! index_of dims b) [0..<r]))))"

definition flatten :: "nat \<Rightarrow> tensor \<Rightarrow> error + tensor" where
  "flatten s t =
     (if length (shape t) \<le> s then Inl IndexError
      else Inr \<lparr>shape = take s (shape t) @ [prod_list (drop s (shape t))], data = data t\<rparr>)"

definition unsqueeze :: "nat \<Rightarrow> tensor \<Rightarrow> error + tensor" where
  "unsqueeze k t =
     (if length (shape t) < k then Inl IndexError
      else Inr \<lparr>shape = take k (shape t) @ [1] @ drop k (shape t), data = data t\<rparr>)"

definition meshgrid :: "tensor \<Rightarrow> tensor \<Rightarrow> error + tensor \<times> tensor" where
  "meshgrid a b =
     (if length (shape a) \<noteq> 1 \<or> length (shape b) \<noteq> 1 then Inl RuntimeError
      else let shp = shape a @ shape b
           in Inr (mk shp (\<lambda>idx. tget0 a [idx ! 0]), mk shp (\<lambda>idx. tget0 b [idx ! 1])))"

section \<open>get\_reference\_points\<close>

text \<open>
  The two branches of \<open>get_reference_points\<close>, statement by statement. \<open>H\<close>, \<open>W\<close>, \<open>D\<close>
  and \<open>bs\<close> are sizes; \<open>Z\<close> only divides and bounds a \<open>linspace\<close>. The divisions by
  \<open>H\<close>, \<open>W\<close> and \<open>Z\<close> are divisions of reals: the properties below take them positive.
\<close>

definition get_reference_points_3d :: "nat \<Rightarrow> nat \<Rightarrow> real \<Rightarrow> nat \<Rightarrow> nat \<Rightarrow> error + tensor" where
  "get_reference_points_3d H W Z D bs =
     bindE (reshape [- 1, 1, 1] (linspace 0.5 (Z - 0.5) D)) (\<lambda>zv.
     bindE (expand [int D, int H, int W] zv) (\<lambda>ze.
     let zs = div_scalar ze Z in
     bindE (reshape [1, 1, int W] (linspace 0.5 (real W - 0.5) W)) (\<lambda>xv.
     bindE (expand [int D, int H, int W] xv) (\<lambda>xe.
     let xs = div_scalar xe (real W) in
     bindE (reshape [1, int H, 1] (linspace 0.5 (real H - 0.5) H)) (\<lambda>yv.
     bindE (expand [int D, int H, int W] yv) (\<lambda>ye.
     let ys = div_scalar ye (real H) in
     bindE (stack_last [xs, ys, zs]) (\<lambda>ref_3d.
     bindE (permute [0, 3, 1, 2] ref_3d) (\<lambda>ref_3d.
     bindE (flatten 2 ref_3d) (\<lambda>ref_3d.
     bindE (permute [0, 2, 1] ref_3d) (\<lambda>ref_3d.
     bindE (unsqueeze 0 ref_3d) (\<lambda>ref_3d.
     repeat [bs, 1, 1, 1] ref_3d)))))))))))"

definition get_reference_points_2d :: "nat \<Rightarrow> nat \<Rightarrow> nat \<Rightarrow> error + tensor" where
  "get_reference_points_2d H W bs =
     bindE (meshgrid (linspace 0.5 (real H - 0.5) H) (linspace 0.5 (real W - 0.5) W))
       (\<lambda>(ref_y, ref_x).
     bindE (reshape [- 1] ref_y) (\<lambda>ry.
     bindE (unsqueeze 0 ry) (\<lambda>ry.
     let ref_y = div_scalar ry (real H) in
     bindE (reshape [- 1] ref_x) (\<lambda>rx.
     bindE (unsqueeze 0 rx) (\<lambda>rx.
     let ref_x = div_scalar rx (real W) in
     bindE (stack_last [ref_x, ref_y]) (\<lambda>ref_2d.
     bindE (repeat [bs, 1, 1] ref_2d) (\<lambda>ref_2d.
     unsqueeze 2 ref_2d)))))))"

definition get_reference_points ::
  "nat \<Rightarrow> nat \<Rightarrow> real \<Rightarrow> nat \<Rightarrow> string \<Rightarrow> nat \<Rightarrow> error + tensor option" where
  \<comment> \<open>the argument \<open>dim\<close> of the source is \<open>dimstr\<close> here; any other string falls
      through both branches and returns \<open>None\<close>\<close>
  "get_reference_points H W Z D dimstr bs =
     (if dimstr = ''3d'' then
        bindE (get_reference_points_3d H W Z D bs) (\<lambda>ref_3d. Inr (Some ref_3d))
      else if dimstr = ''2d'' then
        bindE (get_reference_points_2d H W bs) (\<lambda>ref_2d. Inr (Some ref_2d))
      else Inr None)"

section \<open>BEVTransformer\<close>

subsection \<open>Python values and the module's state\<close>

text \<open>
  The options \<open>use_shift\<close> and \<open>rotate_prev_bev\<close> hold a bool or a string in the
  source; \<open>truthy\<close> is Python's truth value of such an object.
\<close>

datatype pyval = PyBool bool | PyStr string | PyNone

fun truthy :: "pyval \<Rightarrow> bool" where
  "truthy (PyBool b) = b"
| "truthy (PyStr s) = (s \<noteq> [])"
| "truthy PyNone = False"

definition pyget :: "'a list \<Rightarrow> int \<Rightarrow> error + 'a" where
  \<comment> \<open>\<open>xs[i]\<close>: a negative index counts from the end, out of range raises IndexError\<close>
  "pyget xs i =
     (let n = int (length xs); j = (if i < 0 then n + i else i)
      in if 0 \<le> j \<and> j < n then Inr (xs ! nat j) else Inl IndexError)"

record img_meta =
  can_bus :: "real list"

datatype grid_length = GridScalar real | GridTuple real real

typedecl pyobject
  \<comment> \<open>objects that forward only hands on: \<open>reg_branches\<close>, \<open>gt_bboxes_3d\<close>\<close>

record encoder_call =
  enc_query :: tensor
  enc_key :: tensor
  enc_value :: tensor
  enc_ref_2d :: "tensor option"
  enc_ref_3d :: "tensor option"
  enc_bev_h :: nat
  enc_bev_w :: nat
  enc_bev_pos :: tensor
  enc_spatial_shapes :: "(nat \<times> nat) list"
  enc_level_start_index :: "int list"
  enc_prev_bev :: "tensor option"
  enc_shift :: tensor
  enc_gt_bboxes_3d :: "pyobject option"
  enc_img_metas :: "img_meta list"

record decoder_call =
  dec_query :: tensor
  dec_value :: tensor
  dec_query_pos :: tensor
  dec_reference_points :: tensor
  dec_reg_branches :: "pyobject option"
  dec_spatial_shapes :: "(nat \<times> nat) list"
  dec_level_start_index :: "int list"
  dec_key_padding_mask :: "tensor option"
  dec_img_metas :: "img_meta list"

text \<open>
  The attributes of \<open>self\<close>. The encoder, the decoder, the can-bus MLP and the linear
  layer \<open>reference_points\<close> are modules built outside this file: they are functions of
  what forward passes to them.
\<close>

record bev_transformer =
  self_encoder :: "encoder_call \<Rightarrow> error + tensor"
  self_encoder_key_padding_mask :: "tensor option"
  self_only_encoder :: bool
  self_decoder :: "decoder_call \<Rightarrow> error + tensor \<times> tensor"
  self_embed_dims :: nat
  self_num_feature_levels :: nat
  self_num_cams :: nat
  self_Z :: real
  self_D :: nat
  self_rotate_prev_bev :: pyval
  self_use_can_bus :: bool
  self_can_bus_norm :: bool
  self_use_shift :: pyval
  self_two_stage_num_proposals :: nat
  self_level_embeds :: tensor
  self_cams_embeds :: tensor
  self_reference_points :: "tensor \<Rightarrow> error + tensor"
  self_can_bus_mlp :: "tensor \<Rightarrow> error + tensor"
  self_use_cams_embeds :: bool
  self_count :: nat

record built_layers =
  built_encoder :: "encoder_call \<Rightarrow> error + tensor"
  built_encoder_key_padding_mask :: "tensor option"
  built_decoder :: "decoder_call \<Rightarrow> error + tensor \<times> tensor"
  built_level_embeds :: tensor
  built_cams_embeds :: tensor
  built_reference_points :: "tensor \<Rightarrow> error + tensor"
  built_can_bus_mlp :: "tensor \<Rightarrow> error + tensor"

definition BEVTransformer_init ::
  "built_layers \<Rightarrow> nat \<Rightarrow> nat \<Rightarrow> nat \<Rightarrow> real \<Rightarrow> nat \<Rightarrow> nat \<Rightarrow> pyval \<Rightarrow> bool \<Rightarrow> bool \<Rightarrow> bool
   \<Rightarrow> pyval \<Rightarrow> bool \<Rightarrow> bev_transformer" where
  \<comment> \<open>\<open>__init__\<close>; \<open>built\<close> is what \<open>build_transformer_layer_sequence\<close> and
      \<open>init_layers\<close> construct. Every option is stored as given.\<close>
  "BEVTransformer_init built num_feature_levels num_cams two_stage_num_proposals Z D embed_dims
       rotate_prev_bev only_encoder use_can_bus can_bus_norm use_shift use_cams_embeds =
     \<lparr>self_encoder = built_encoder built,
      self_encoder_key_padding_mask = built_encoder_key_padding_mask built,
      self_only_encoder = only_encoder,
      self_decoder = built_decoder built,
      self_embed_dims = embed_dims,
      self_num_feature_levels = num_feature_levels,
      self_num_cams = num_cams,
      self_Z = Z,
      self_D = D,
      self_rotate_prev_bev = rotate_prev_bev,
      self_use_can_bus = use_can_bus,
      self_can_bus_norm = can_bus_norm,
      self_use_shift = use_shift,
      self_two_stage_num_proposals = two_stage_num_proposals,
      self_level_embeds = built_level_embeds built,
      self_cams_embeds = built_cams_embeds built,
      self_reference_points = built_reference_points built,
      self_can_bus_mlp = built_can_bus_mlp built,
      self_use_cams_embeds = use_cams_embeds,
      self_count = 0\<rparr>"

subsection \<open>forward: ego motion and shift\<close>

definition arctan2 :: "real \<Rightarrow> real \<Rightarrow> real" where
  \<comment> \<open>\<open>np.arctan2(y, x)\<close>, the angle of the point \<open>(x, y)\<close> in \<open>(-pi, pi]\<close>\<close>
  "arctan2 y x =
     (if 0 < x then arctan (y / x)
      else if x < 0 then (if 0 \<le> y then arctan (y / x) + pi else arctan (y / x) - pi)
      else if 0 < y then pi / 2
      else if y < 0 then - (pi / 2)
      else 0)"

definition ego_motion :: "img_meta list \<Rightarrow> error + real \<times> real \<times> real \<times> real" where
  \<comment> \<open>\<open>(delta_x, delta_y, ego_angle, rotation_angle)\<close>, read from
      \<open>kwargs['img_metas'][0]['can_bus']\<close>\<close>
  "ego_motion img_metas =
     bindE (pyget img_metas 0) (\<lambda>meta.
     bindE (pyget (can_bus meta) 0) (\<lambda>delta_x.
     bindE (pyget (can_bus meta) 1) (\<lambda>delta_y.
     bindE (pyget (can_bus meta) (- 2)) (\<lambda>heading.
     bindE (pyget (can_bus meta) (- 1)) (\<lambda>rotation_angle.
     Inr (delta_x, delta_y, heading / pi * 180, rotation_angle))))))"

fun grid_lengths :: "grid_length \<Rightarrow> real \<times> real" where
  \<comment> \<open>\<open>(grid_length_x, grid_length_y)\<close>; a tuple is \<open>(grid_length_y, grid_length_x)\<close>\<close>
  "grid_lengths (GridScalar g) = (g, g)"
| "grid_lengths (GridTuple g0 g1) = (g1, g0)"

text \<open>
  The shift, from \<open>translation_length\<close> to the branch on \<open>self.use_shift\<close>. The
  quotients are quotients of reals: the properties below take the grid lengths nonzero
  and \<open>bev_h\<close>, \<open>bev_w\<close> positive (where floating point would give an infinity or NaN).
\<close>

definition shift_xy ::
  "pyval \<Rightarrow> real \<Rightarrow> real \<Rightarrow> real \<Rightarrow> real \<Rightarrow> real \<Rightarrow> nat \<Rightarrow> nat \<Rightarrow> real \<times> real" where
  \<comment> \<open>\<open>(shift_x, shift_y)\<close>\<close>
  "shift_xy use_shift delta_x delta_y ego_angle grid_length_x grid_length_y bev_h bev_w =
     (let translation_length = sqrt (delta_x\<^sup>2 + delta_y\<^sup>2);
          translation_angle = arctan2 delta_y delta_x / pi * 180;
          translation_angle =
            (if translation_angle < 0 then translation_angle + 360 else translation_angle);
          bev_angle = ego_angle - translation_angle
      in if use_shift = PyStr ''waymo_shift'' then
           (translation_length * cos (bev_angle / 180 * pi) / grid_length_x / real bev_w,
            translation_length * sin (bev_angle / 180 * pi) / grid_length_y / real bev_h)
         else if truthy use_shift then
           (translation_length * sin (bev_angle / 180 * pi) / grid_length_x / real bev_w,
            translation_length * cos (bev_angle / 180 * pi) / grid_length_y / real bev_h)
         else (0, 0))"

definition new_tensor :: "real list \<Rightarrow> tensor" where
  \<comment> \<open>\<open>bev_embed.new_tensor(xs)\<close> for a flat list\<close>
  "new_tensor xs = \<lparr>shape = [length xs], data = xs\<rparr>"

definition forward_shift ::
  "pyval \<Rightarrow> img_meta list \<Rightarrow> grid_length \<Rightarrow> nat \<Rightarrow> nat \<Rightarrow> error + tensor" where
  "forward_shift use_shift img_metas grid_length bev_h bev_w =
     bindE (ego_motion img_metas) (\<lambda>(delta_x, delta_y, ego_angle, rotation_angle).
     let (grid_length_x, grid_length_y) = grid_lengths grid_length;
         (shift_x, shift_y) =
            shift_xy use_shift delta_x delta_y ego_angle grid_length_x grid_length_y bev_h bev_w
     in Inr (new_tensor [shift_x, shift_y]))"

subsection \<open>forward: the previous BEV\<close>

definition size_dim :: "tensor \<Rightarrow> nat \<Rightarrow> error + nat" where
  \<comment> \<open>\<open>t.shape[k]\<close>, \<open>t.size(k)\<close>\<close>
  "size_dim t k = (if k < length (shape t) then Inr (shape t ! k) else Inl IndexError)"

text \<open>
  \<open>rotate\<close> is torchvision's function, a parameter \<open>rot\<close> of the model: it takes the
  image tensor, the angle and the optional centre, and (called as here, without
  \<open>expand\<close>) returns an image of the same shape. The two rotating branches of the source
  differ in the centre only.
\<close>

definition rotate_prev ::
  "(tensor \<Rightarrow> real \<Rightarrow> (nat \<times> nat) option \<Rightarrow> error + tensor) \<Rightarrow> tensor \<Rightarrow> nat \<Rightarrow> nat \<Rightarrow> real
   \<Rightarrow> (nat \<times> nat) option \<Rightarrow> error + tensor" where
  "rotate_prev rot prev_bev bev_h bev_w rotation_angle center =
     bindE (size_dim prev_bev 1) (\<lambda>num_prev_bev.
     bindE (reshape [int bev_h, int bev_w, - 1] prev_bev) (\<lambda>p.
     bindE (permute [2, 0, 1] p) (\<lambda>p.
     bindE (rot p rotation_angle center) (\<lambda>p.
     bindE (permute [1, 2, 0] p) (\<lambda>p.
     reshape [int (bev_h * bev_w), int num_prev_bev, - 1] p)))))"

definition align_prev_bev ::
  "(tensor \<Rightarrow> real \<Rightarrow> (nat \<times> nat) option \<Rightarrow> error + tensor) \<Rightarrow> pyval \<Rightarrow> tensor option
   \<Rightarrow> nat \<Rightarrow> nat \<Rightarrow> real \<Rightarrow> error + tensor option" where
  "align_prev_bev rot rotate_prev_bev prev_bev bev_h bev_w rotation_angle =
     (case prev_bev of
        None \<Rightarrow> Inr None
      | Some pb \<Rightarrow>
          bindE (size_dim pb 1) (\<lambda>s1.
          bindE (if s1 = bev_h * bev_w then permute [1, 0, 2] pb else Inr pb) (\<lambda>pb.
          if rotate_prev_bev = PyStr ''waymo_rotate'' then
            bindE (rotate_prev rot pb bev_h bev_w rotation_angle (Some (70, 150)))
              (\<lambda>p. Inr (Some p))
          else if truthy rotate_prev_bev then
            bindE (rotate_prev rot pb bev_h bev_w rotation_angle None) (\<lambda>p. Inr (Some p))
          else Inr (Some pb))))"

subsection \<open>forward: the can-bus embedding\<close>

definition broadcast_shapes :: "nat list \<Rightarrow> nat list \<Rightarrow> error + nat list" where
  "broadcast_shapes a b =
     (let r = max (length a) (length b);
          pa = replicate (r - length a) 1 @ a;
          pb = replicate (r - length b) 1 @ b
      in if list_all2 (\<lambda>p q. p = q \<or> p = 1 \<or> q = 1) pa pb
         then Inr (map2 (\<lambda>p q. if p = 1 then q else p) pa pb)
         else Inl RuntimeError)"

definition add_bc :: "tensor \<Rightarrow> tensor \<Rightarrow> error + tensor" where
  \<comment> \<open>\<open>a + b\<close> with broadcasting\<close>
  "add_bc a b =
     bindE (broadcast_shapes (shape a) (shape b)) (\<lambda>shp.
     Inr (mk shp (\<lambda>idx. tget0 a (bidx (shape a) idx) + tget0 b (bidx (shape b) idx))))"

definition can_bus_embed ::
  "(tensor \<Rightarrow> error + tensor) \<Rightarrow> bool \<Rightarrow> img_meta list \<Rightarrow> error + tensor" where
  \<comment> \<open>\<open>can_bus * self.use_can_bus\<close> after the MLP\<close>
  "can_bus_embed can_bus_mlp use_can_bus img_metas =
     bindE (pyget img_metas 0) (\<lambda>meta.
     bindE (can_bus_mlp \<lparr>shape = [1, 1, length (can_bus meta)], data = can_bus meta\<rparr>) (\<lambda>cb.
     Inr (mul_scalar cb (if use_can_bus then 1 else 0))))"

subsection \<open>forward: flattening the camera features\<close>

definition index_cams :: "tensor \<Rightarrow> error + tensor" where
  \<comment> \<open>\<open>self.cams_embeds[:, None, None, :]\<close>\<close>
  "index_cams t =
     (case shape t of
        n # m # rest \<Rightarrow> Inr \<lparr>shape = n # 1 # 1 # m # rest, data = data t\<rparr>
      | _ \<Rightarrow> Inl IndexError)"

definition index_level :: "tensor \<Rightarrow> nat \<Rightarrow> error + tensor" where
  \<comment> \<open>\<open>self.level_embeds[None, None, lvl:lvl + 1, :]\<close>; a slice beyond the rows is empty\<close>
  "index_level t lvl =
     (case shape t of
        n # m # rest \<Rightarrow>
          let lo = min lvl n; hi = min (lvl + 1) n; row = prod_list (m # rest)
          in Inr \<lparr>shape = 1 # 1 # (hi - lo) # m # rest,
                  data = take ((hi - lo) * row) (drop (lo * row) (data t))\<rparr>
      | _ \<Rightarrow> Inl IndexError)"

definition flatten_level ::
  "bool \<Rightarrow> tensor \<Rightarrow> tensor \<Rightarrow> nat \<Rightarrow> tensor \<Rightarrow> error + tensor \<times> (nat \<times> nat) \<times> nat" where
  \<comment> \<open>the body of the loop over \<open>mlvl_feats\<close>: the flattened level, its
      \<open>spatial_shape\<close> and \<open>bs\<close>\<close>
  "flatten_level use_cams_embeds cams_embeds level_embeds lvl feat =
     (case shape feat of
        [bs, num_cam, c, h, w] \<Rightarrow>
          bindE (flatten 3 feat) (\<lambda>f.
          bindE (permute [1, 0, 3, 2] f) (\<lambda>f.
          bindE (if use_cams_embeds then bindE (index_cams cams_embeds) (add_bc f) else Inr f) (\<lambda>f.
          bindE (index_level level_embeds lvl) (\<lambda>le.
          bindE (add_bc f le) (\<lambda>f.
          Inr (f, (h, w), bs))))))
      | _ \<Rightarrow> Inl ValueError)"

fun flatten_loop ::
  "bool \<Rightarrow> tensor \<Rightarrow> tensor \<Rightarrow> nat \<Rightarrow> tensor list \<Rightarrow> tensor list \<times> (nat \<times> nat) list \<times> nat
   \<Rightarrow> error + tensor list \<times> (nat \<times> nat) list \<times> nat" where
  "flatten_loop use_cams_embeds cams_embeds level_embeds lvl [] acc = Inr acc"
| "flatten_loop use_cams_embeds cams_embeds level_embeds lvl (feat # rest) (feat_flatten, spatial_shapes, bs) =
     bindE (flatten_level use_cams_embeds cams_embeds level_embeds lvl feat) (\<lambda>(f, spatial_shape, bs').
     flatten_loop use_cams_embeds cams_embeds level_embeds (Suc lvl) rest
       (feat_flatten @ [f], spatial_shapes @ [spatial_shape], bs'))"

text \<open>
  Sizes and the elements of a \<open>torch.long\<close> tensor are 64-bit signed integers:
  \<open>int64_max\<close> is the largest, and \<open>wrap_int64\<close> is the value that two's-complement
  arithmetic keeps of an integer.
\<close>

definition int64_max :: int where
  "int64_max = 2 ^ 63 - 1"

definition wrap_int64 :: "int \<Rightarrow> int" where
  "wrap_int64 x = (x + 2 ^ 63) mod 2 ^ 64 - 2 ^ 63"

fun cat_locate :: "nat list \<Rightarrow> nat \<Rightarrow> nat \<times> nat" where
  \<comment> \<open>which tensor of a concatenation holds position \<open>k\<close>, and where\<close>
  "cat_locate [] k = (0, k)"
| "cat_locate (n # ns) k =
     (if k < n then (0, k) else (let (j, r) = cat_locate ns (k - n) in (Suc j, r)))"

definition cat :: "tensor list \<Rightarrow> nat \<Rightarrow> error + tensor" where
  \<comment> \<open>\<open>torch.cat(ts, dim)\<close>; it raises when the size of the result along the axis is no
      64-bit integer\<close>
  "cat ts axis =
     (case ts of
        [] \<Rightarrow> Inl RuntimeError
      | t # _ \<Rightarrow>
          if length (shape t) \<le> axis then Inl IndexError
          else if \<exists>u \<in> set ts. length (shape u) \<noteq> length (shape t)
                    \<or> (shape u)[axis := 0] \<noteq> (shape t)[axis := 0]
          then Inl RuntimeError
          else
            let sizes = map (\<lambda>u. shape u ! axis) ts
            in if int64_max < int (sum_list sizes) then Inl RuntimeError
               else Inr (mk ((shape t)[axis := sum_list sizes])
                      (\<lambda>idx. let (j, r) = cat_locate sizes (idx ! axis)
                              in tget0 (ts ! j) (idx[axis := r]))))"

fun cumsum_long :: "int \<Rightarrow> int list \<Rightarrow> int list" where
  \<comment> \<open>\<open>cumsum(0)\<close> of a \<open>torch.long\<close> vector: running sums, each wrapped\<close>
  "cumsum_long acc [] = []"
| "cumsum_long acc (x # xs) = wrap_int64 (acc + x) # cumsum_long (wrap_int64 (acc + x)) xs"

definition level_start_index :: "(nat \<times> nat) list \<Rightarrow> error + int list" where
  \<comment> \<open>\<open>torch.as_tensor(spatial_shapes, dtype=torch.long)\<close>, which raises on a number
      that is no 64-bit integer, then
      \<open>cat((new_zeros((1,)), spatial_shapes.prod(1).cumsum(0)[:-1]))\<close> in 64-bit
      arithmetic\<close>
  "level_start_index spatial_shapes =
     (if \<exists>(h, w) \<in> set spatial_shapes. int64_max < int h \<or> int64_max < int w
      then Inl RuntimeError
      else if spatial_shapes = [] then Inl IndexError
      else Inr ([0] @ butlast (cumsum_long 0
                  (map (\<lambda>(h, w). wrap_int64 (int h * int w)) spatial_shapes))))"

definition forward_flatten ::
  "bool \<Rightarrow> tensor \<Rightarrow> tensor \<Rightarrow> tensor list \<Rightarrow> nat
   \<Rightarrow> error + tensor \<times> (nat \<times> nat) list \<times> int list \<times> nat" where
  \<comment> \<open>\<open>(feat_flatten, spatial_shapes, level_start_index, bs)\<close>\<close>
  "forward_flatten use_cams_embeds cams_embeds level_embeds mlvl_feats bs =
     bindE (flatten_loop use_cams_embeds cams_embeds level_embeds 0 mlvl_feats ([], [], bs))
       (\<lambda>(feat_flatten, spatial_shapes, bs).
     bindE (cat feat_flatten 2) (\<lambda>feat_flatten.
     bindE (level_start_index spatial_shapes) (\<lambda>lsi.
     bindE (permute [0, 2, 1, 3] feat_flatten) (\<lambda>feat_flatten.
     Inr (feat_flatten, spatial_shapes, lsi, bs)))))"

subsection \<open>forward: what the encoder is called with\<close>

text \<open>
  forward in the order of its statements, up to the call of \<open>self.encoder\<close>. Of
  \<open>kwargs\<close> the model has \<open>img_metas\<close>, a list of records with the entry \<open>can_bus\<close>;
  \<open>bev_pos\<close> is a tensor (forward calls \<open>flatten\<close> on it at once). The loop over the
  levels rebinds \<open>bs\<close>, so the \<open>bs\<close> that decoding uses is the batch size of the last
  level.
\<close>

definition shift_tensor ::
  "pyval \<Rightarrow> real \<times> real \<times> real \<times> real \<Rightarrow> grid_length \<Rightarrow> nat \<Rightarrow> nat \<Rightarrow> tensor" where
  \<comment> \<open>\<open>shift\<close>, from the ego motion read before\<close>
  "shift_tensor use_shift ego grid_length bev_h bev_w =
     (let (delta_x, delta_y, ego_angle, rotation_angle) = ego;
          (grid_length_x, grid_length_y) = grid_lengths grid_length;
          (shift_x, shift_y) =
             shift_xy use_shift delta_x delta_y ego_angle grid_length_x grid_length_y bev_h bev_w
      in new_tensor [shift_x, shift_y])"

definition forward_encoder_call ::
  "(tensor \<Rightarrow> real \<Rightarrow> (nat \<times> nat) option \<Rightarrow> error + tensor) \<Rightarrow> bev_transformer
   \<Rightarrow> tensor list \<Rightarrow> tensor \<Rightarrow> nat \<Rightarrow> nat \<Rightarrow> grid_length \<Rightarrow> tensor \<Rightarrow> tensor option
   \<Rightarrow> pyobject option \<Rightarrow> img_meta list \<Rightarrow> error + encoder_call \<times> nat" where
  \<comment> \<open>forward up to the call of \<open>self.encoder\<close>: the arguments of that call, and \<open>bs\<close>\<close>
  "forward_encoder_call rot self mlvl_feats bev_embed bev_h bev_w grid_length bev_pos prev_bev
       gt_bboxes_3d img_metas =
     bindE (pyget mlvl_feats 0) (\<lambda>feat0.
     bindE (size_dim feat0 0) (\<lambda>bs.
     bindE (bindE (unsqueeze 1 bev_embed) (repeat [1, bs, 1])) (\<lambda>bev_embed.
     bindE (bindE (flatten 2 bev_pos) (permute [2, 0, 1])) (\<lambda>bev_pos.
     bindE (get_reference_points bev_h bev_w (self_Z self) (self_D self) ''3d'' bs) (\<lambda>ref_3d.
     bindE (get_reference_points bev_h bev_w 8 4 ''2d'' bs) (\<lambda>ref_2d.
     bindE (ego_motion img_metas) (\<lambda>ego.
     let shift = shift_tensor (self_use_shift self) ego grid_length bev_h bev_w;
         rotation_angle = snd (snd (snd ego))
     in
     bindE (align_prev_bev rot (self_rotate_prev_bev self) prev_bev bev_h bev_w rotation_angle)
       (\<lambda>prev_bev.
     bindE (can_bus_embed (self_can_bus_mlp self) (self_use_can_bus self) img_metas) (\<lambda>cb.
     bindE (add_bc bev_embed cb) (\<lambda>bev_embed.
     bindE (forward_flatten (self_use_cams_embeds self) (self_cams_embeds self)
              (self_level_embeds self) mlvl_feats bs)
       (\<lambda>(feat_flatten, spatial_shapes, lsi, bs).
     Inr (\<lparr>enc_query = bev_embed, enc_key = feat_flatten, enc_value = feat_flatten,
            enc_ref_2d = ref_2d, enc_ref_3d = ref_3d, enc_bev_h = bev_h, enc_bev_w = bev_w,
            enc_bev_pos = bev_pos, enc_spatial_shapes = spatial_shapes,
            enc_level_start_index = lsi, enc_prev_bev = prev_bev, enc_shift = shift,
            enc_gt_bboxes_3d = gt_bboxes_3d, enc_img_metas = img_metas\<rparr>, bs))))))))))))"

subsection \<open>forward: decoding\<close>






section \<open>Tensors by their elements\<close>

text \<open>
  For the proofs: \<open>tis t shp f\<close> says that \<open>t\<close> is the well-formed tensor of shape
  \<open>shp\<close> whose element at every index \<open>idx\<close> is \<open>f idx\<close>; \<open>ref_3d_elem\<close> and
  \<open>ref_2d_elem\<close> are the elements of the two reference-point tensors in closed form.
\<close>

definition tis :: "tensor \<Rightarrow> nat list \<Rightarrow> (nat list \<Rightarrow> real) \<Rightarrow> bool" where
  "tis t shp f \<longleftrightarrow>
     shape t = shp \<and> length (data t) = prod_list shp
     \<and> (\<forall>idx. valid_index shp idx \<longrightarrow> tget0 t idx = f idx)"

definition ref_3d_elem :: "nat \<Rightarrow> nat \<Rightarrow> real \<Rightarrow> nat \<Rightarrow> nat list \<Rightarrow> real" where
  "ref_3d_elem H W Z D idx =
     (if idx ! 3 = 0 then linspace_val 0.5 (real W - 0.5) W (idx ! 2 mod W) / real W
      else if idx ! 3 = 1 then linspace_val 0.5 (real H - 0.5) H (idx ! 2 div W) / real H
      else linspace_val 0.5 (Z - 0.5) D (idx ! 1) / Z)"

definition ref_2d_elem :: "nat \<Rightarrow> nat \<Rightarrow> nat list \<Rightarrow> real" where
  "ref_2d_elem H W idx =
     (if idx ! 3 = 0 then linspace_val 0.5 (real W - 0.5) W (idx ! 1 mod W) / real W
      else linspace_val 0.5 (real H - 0.5) H (idx ! 1 div W) / real H)"

section \<open>The shift as the specification words it\<close>

text \<open>
  The specification's \<open>compute_shift\<close>: the translation angle is \<open>atan2(dy, dx)\<close> in
  degrees, normalised into \<open>[0, 360)\<close>; sine and cosine take the BEV angle in degrees; the
  mode is a closed enumeration.
\<close>

datatype shift_mode = ShiftOff | ShiftStandard | ShiftAlternate

definition normalize_360 :: "real \<Rightarrow> real" where
  "normalize_360 a = a - 360 * of_int \<lfloor>a / 360\<rfloor>"

definition spec_translation_angle :: "real \<Rightarrow> real \<Rightarrow> real" where
  "spec_translation_angle dx dy = normalize_360 (arctan2 dy dx * 180 / pi)"

definition sin_deg :: "real \<Rightarrow> real" where
  "sin_deg a = sin (a * pi / 180)"

definition cos_deg :: "real \<Rightarrow> real" where
  "cos_deg a = cos (a * pi / 180)"

definition spec_compute_shift ::
  "shift_mode \<Rightarrow> real \<Rightarrow> real \<Rightarrow> real \<Rightarrow> real \<Rightarrow> real \<Rightarrow> nat \<Rightarrow> nat \<Rightarrow> real \<times> real" where
  "spec_compute_shift mode dx dy ego_heading grid_x grid_y H W =
     (let L = sqrt (dx\<^sup>2 + dy\<^sup>2);
          bev_angle = ego_heading - spec_translation_angle dx dy
      in case mode of
           ShiftStandard \<Rightarrow> (L * sin_deg bev_angle / grid_x / real W,
                             L * cos_deg bev_angle / grid_y / real H)
         | ShiftAlternate \<Rightarrow> (L * cos_deg bev_angle / grid_x / real W,
                              L * sin_deg bev_angle / grid_y / real H)
         | ShiftOff \<Rightarrow> (0, 0))"

section \<open>An instance for the examples\<close>

text \<open>
  Concrete inputs for the worked examples: layers for one feature level, one camera and
  \<open>embed_dims = 1\<close> (the encoder returns its query, the decoder its query and reference
  points, the can-bus MLP a constant), an ego-motion record with \<open>delta_x = 1\<close> and every
  other entry 0, one feature map of shape \<open>(1, 1, 1, 1, 2)\<close>, a BEV query for a
  \<open>2 \<times> 2\<close> grid and its positional encoding.
\<close>

definition example_layers :: built_layers where
  "example_layers =
     \<lparr>built_encoder = (\<lambda>c. Inr (enc_query c)), built_encoder_key_padding_mask = None,
      built_decoder = (\<lambda>c. Inr (dec_query c, dec_reference_points c)),
      built_level_embeds = \<lparr>shape = [1, 1], data = [100]\<rparr>,
      built_cams_embeds = \<lparr>shape = [1, 1], data = [1000]\<rparr>,
      built_reference_points = (\<lambda>t. Inr t),
      built_can_bus_mlp = (\<lambda>t. Inr \<lparr>shape = [1, 1, 1], data = [1 / 2]\<rparr>)\<rparr>"

definition example_meta :: img_meta where
  "example_meta = \<lparr>can_bus = [1, 0, 0, 0, 0, 0, 0, 0, 0, 0, 0, 0, 0, 0, 0, 0, 0, 0]\<rparr>"

definition example_feat :: tensor where
  "example_feat = \<lparr>shape = [1, 1, 1, 1, 2], data = [7, 8]\<rparr>"

definition example_bev_embed :: tensor where
  "example_bev_embed = \<lparr>shape = [4, 1], data = [0, 1, 2, 3]\<rparr>"

definition example_bev_pos :: tensor where
  "example_bev_pos = \<lparr>shape = [1, 1, 2, 2], data = [0, 0, 0, 0]\<rparr>"

section \<open>Properties of inverse\_sigmoid\<close>

lemma sigmoid_pos: "0 < sigmoid x"
  by (simp add: sigmoid_def add_pos_pos)

lemma sigmoid_less_one: "sigmoid x < 1"
  by (simp add: sigmoid_def add_pos_pos)

lemma sigmoid_ratio: "sigmoid x / (1 - sigmoid x) = exp x"
proof -
  have e: "exp (- x) = 1 / exp x" by (simp add: exp_minus inverse_eq_divide)
  have p: "0 < exp x" by simp
  then have q: "1 + exp x \<noteq> 0" by (simp add: add_pos_pos less_imp_neq [symmetric])
  have s: "sigmoid x = exp x / (1 + exp x)"
    unfolding sigmoid_def e using p q by (simp add: field_simps)
  have "1 - sigmoid x = (1 + exp x) / (1 + exp x) - exp x / (1 + exp x)"
    using q by (simp add: s)
  also have "\<dots> = 1 / (1 + exp x)"
    by (simp only: diff_divide_distrib [symmetric] add_diff_cancel_right')
  finally have t: "1 - sigmoid x = 1 / (1 + exp x)" .
  show ?thesis unfolding t unfolding s using q by simp
qed

text \<open>
  C7. Round trip: whenever \<open>sigmoid x\<close> lies in \<open>[eps, 1 - eps]\<close>, the clamps are
  inactive and \<open>inverse_sigmoid (sigmoid x) eps = x\<close>. Clamps: for a positive \<open>eps\<close>
  and every input (so every input in \<open>[0, 1]\<close>), numerator and denominator of the
  division are at least \<open>eps\<close> (so the denominator is not zero) and the argument of the
  logarithm is positive; when \<open>eps \<le> 1\<close> (as for the default \<open>1e-5\<close>) that argument is
  at least \<open>eps\<close> and the result is bounded by \<open>ln (1 / eps)\<close> in absolute value.
\<close>

theorem inverse_sigmoid_roundtrip:
  "(eps \<le> sigmoid x \<and> sigmoid x \<le> 1 - eps \<longrightarrow> inverse_sigmoid (sigmoid x) eps = x)
   \<and> (0 < eps \<longrightarrow>
        eps \<le> inverse_sigmoid_x1 y eps \<and> eps \<le> inverse_sigmoid_x2 y eps
        \<and> inverse_sigmoid_x2 y eps \<noteq> 0
        \<and> 0 < inverse_sigmoid_x1 y eps / inverse_sigmoid_x2 y eps
        \<and> (eps \<le> 1 \<longrightarrow> eps \<le> inverse_sigmoid_x1 y eps / inverse_sigmoid_x2 y eps
                         \<and> \<bar>inverse_sigmoid y eps\<bar> \<le> ln (1 / eps)))"
proof (intro conjI impI)
  assume a: "eps \<le> sigmoid x \<and> sigmoid x \<le> 1 - eps"
  have c: "clamp_min_max (sigmoid x) 0 1 = sigmoid x"
    using sigmoid_pos [of x] sigmoid_less_one [of x] by (simp add: clamp_min_max_def)
  have m1: "max (sigmoid x) eps = sigmoid x" using a by simp
  have m2: "max (1 - sigmoid x) eps = 1 - sigmoid x" using a by simp
  have "inverse_sigmoid (sigmoid x) eps = ln (sigmoid x / (1 - sigmoid x))"
    by (simp add: inverse_sigmoid_def inverse_sigmoid_x1_def inverse_sigmoid_x2_def
        c clamp_min_def m1 m2)
  then show "inverse_sigmoid (sigmoid x) eps = x" by (simp add: sigmoid_ratio)
next
  assume b: "0 < eps"
  let ?x1 = "inverse_sigmoid_x1 y eps" and ?x2 = "inverse_sigmoid_x2 y eps"
  show x1: "eps \<le> ?x1"
    by (simp add: inverse_sigmoid_x1_def clamp_min_def)
  show x2: "eps \<le> ?x2"
    by (simp add: inverse_sigmoid_x2_def clamp_min_def)
  from b x2 show "?x2 \<noteq> 0" by simp
  have p2: "0 < ?x2" using b x2 by simp
  have p1: "0 < ?x1" using b x1 by simp
  from p1 p2 show pr: "0 < ?x1 / ?x2" by simp
  {
    assume e1: "eps \<le> 1"
    have le2: "?x2 \<le> 1"
      using e1 by (simp add: inverse_sigmoid_x2_def clamp_min_def clamp_min_max_def)
    have le1: "?x1 \<le> 1"
      using e1 by (simp add: inverse_sigmoid_x1_def clamp_min_def clamp_min_max_def)
    have "?x1 * ?x2 \<le> ?x1 * 1" using le2 p1 by (intro mult_left_mono) simp_all
    then have "?x1 \<le> ?x1 / ?x2" using p2 by (simp add: pos_le_divide_eq)
    with x1 show lo: "eps \<le> ?x1 / ?x2" by simp
    have "?x1 / ?x2 \<le> 1 / ?x2" using le1 p2 by (intro divide_right_mono) simp_all
    also have "\<dots> \<le> 1 / eps" using x2 b by (intro divide_left_mono) simp_all
    finally have hi: "?x1 / ?x2 \<le> 1 / eps" .
    have l1: "ln eps \<le> ln (?x1 / ?x2)" using lo b pr by simp
    have l2: "ln (?x1 / ?x2) \<le> ln (1 / eps)" using hi b pr by simp
    have "ln (1 / eps) = - ln eps" using b by (simp add: ln_div)
    with l1 l2 show "\<bar>inverse_sigmoid y eps\<bar> \<le> ln (1 / eps)"
      unfolding inverse_sigmoid_def by linarith
  }
qed

theorem inverse_sigmoid_roundtrip_witness:
  "inverse_sigmoid (sigmoid 0) (1 / 100000) = 0
   \<and> 1 / 100000 \<le> inverse_sigmoid_x1 (1 / 2) (1 / 100000)
   \<and> 1 / 100000 \<le> inverse_sigmoid_x2 (1 / 2) (1 / 100000)
   \<and> 1 / 100000 \<le> inverse_sigmoid_x1 (1 / 2) (1 / 100000) / inverse_sigmoid_x2 (1 / 2) (1 / 100000)
   \<and> \<bar>inverse_sigmoid (1 / 2) (1 / 100000)\<bar> \<le> ln 100000"
  using inverse_sigmoid_roundtrip [of "1 / 100000" 0 "1 / 2"]
  by (simp add: sigmoid_def)

section \<open>Tensors: positions and multi-indices\<close>

lemma bindE_Inr [simp]: "bindE (Inr v) f = f v"
  by (simp add: bindE_def)

lemma bindE_Inl [simp]: "bindE (Inl e) f = Inl e"
  by (simp add: bindE_def)

lemma length_concat_uniform:
  "\<forall>x \<in> set xss. length x = m \<Longrightarrow> length (concat xss) = length xss * m"
  by (induction xss) simp_all

lemma nth_concat_uniform:
  "\<forall>x \<in> set xss. length x = m \<Longrightarrow> i < length xss \<Longrightarrow> k < m
   \<Longrightarrow> concat xss ! (i * m + k) = xss ! i ! k"
proof (induction xss arbitrary: i)
  case Nil
  then show ?case by simp
next
  case (Cons x xss)
  show ?case
  proof (cases i)
    case 0
    with Cons.prems show ?thesis by (simp add: nth_append)
  next
    case (Suc j)
    have "concat (x # xss) ! (i * m + k) = concat xss ! (j * m + k)"
      using Cons.prems Suc by (simp add: nth_append)
    also have "\<dots> = xss ! j ! k"
      using Cons.prems Suc by (intro Cons.IH) auto
    finally show ?thesis using Suc by simp
  qed
qed

lemma length_indices [simp]: "length (indices shp) = prod_list shp"
proof (induction shp)
  case Nil
  then show ?case by simp
next
  case (Cons n ns)
  have "length (indices (n # ns)) = length (map (\<lambda>i. map ((#) i) (indices ns)) [0..<n]) * prod_list ns"
    unfolding indices.simps by (rule length_concat_uniform) (auto simp: Cons.IH)
  then show ?case by simp
qed

lemma valid_index_Nil [simp]: "valid_index [] idx \<longleftrightarrow> idx = []"
  by (simp add: valid_index_def)

lemma valid_index_Cons:
  "valid_index (n # ns) idx \<longleftrightarrow> (\<exists>i is. idx = i # is \<and> i < n \<and> valid_index ns is)"
  by (auto simp: valid_index_def list_all2_Cons2)

lemma valid_index_Cons_Cons [simp]:
  "valid_index (n # ns) (i # is) \<longleftrightarrow> i < n \<and> valid_index ns is"
  by (simp add: valid_index_def)

lemma valid_index_length: "valid_index shp idx \<Longrightarrow> length idx = length shp"
  by (simp add: valid_index_def list_all2_lengthD)

lemma indices_Cons_nth:
  assumes "i < n" and "r < prod_list ns"
  shows "indices (n # ns) ! (i * prod_list ns + r) = i # (indices ns ! r)"
proof -
  let ?xss = "map (\<lambda>i. map ((#) i) (indices ns)) [0..<n]"
  have "concat ?xss ! (i * prod_list ns + r) = ?xss ! i ! r"
    using assms by (intro nth_concat_uniform) auto
  then show ?thesis using assms by simp
qed

lemma ravel_less: "valid_index shp idx \<Longrightarrow> ravel shp idx < prod_list shp"
proof (induction shp arbitrary: idx)
  case Nil
  then show ?case by simp
next
  case (Cons n ns)
  then obtain i "is" where idx: "idx = i # is" and i: "i < n" and v: "valid_index ns is"
    by (auto simp: valid_index_Cons)
  have r: "ravel ns is < prod_list ns" using v by (rule Cons.IH)
  have "i * prod_list ns + ravel ns is < Suc i * prod_list ns" using r by simp
  also have "\<dots> \<le> n * prod_list ns" using i by (intro mult_le_mono1) simp
  finally show ?case by (simp add: idx)
qed

lemma indices_ravel: "valid_index shp idx \<Longrightarrow> indices shp ! ravel shp idx = idx"
proof (induction shp arbitrary: idx)
  case Nil
  then show ?case by simp
next
  case (Cons n ns)
  then obtain i "is" where idx: "idx = i # is" and i: "i < n" and v: "valid_index ns is"
    by (auto simp: valid_index_Cons)
  have "indices (n # ns) ! (i * prod_list ns + ravel ns is) = i # (indices ns ! ravel ns is)"
    using i ravel_less [OF v] by (rule indices_Cons_nth)
  then show ?case using Cons.IH [OF v] by (simp add: idx)
qed

lemma valid_index_indices: "k < prod_list shp \<Longrightarrow> valid_index shp (indices shp ! k)"
proof (induction shp arbitrary: k)
  case Nil
  then show ?case by simp
next
  case (Cons n ns)
  let ?P = "prod_list ns"
  have P: "0 < ?P" using Cons.prems by (cases "?P = 0") auto
  have d: "k div ?P < n" using Cons.prems P by (simp add: less_mult_imp_div_less mult.commute)
  have m: "k mod ?P < ?P" using P by simp
  have "indices (n # ns) ! (k div ?P * ?P + k mod ?P) = (k div ?P) # (indices ns ! (k mod ?P))"
    using d m by (rule indices_Cons_nth)
  then have "indices (n # ns) ! k = (k div ?P) # (indices ns ! (k mod ?P))" by simp
  then show ?case using d Cons.IH [OF m] by simp
qed

lemma ravel_indices: "k < prod_list shp \<Longrightarrow> ravel shp (indices shp ! k) = k"
proof (induction shp arbitrary: k)
  case Nil
  then show ?case by simp
next
  case (Cons n ns)
  let ?P = "prod_list ns"
  have P: "0 < ?P" using Cons.prems by (cases "?P = 0") auto
  have d: "k div ?P < n" using Cons.prems P by (simp add: less_mult_imp_div_less mult.commute)
  have m: "k mod ?P < ?P" using P by simp
  have "indices (n # ns) ! (k div ?P * ?P + k mod ?P) = (k div ?P) # (indices ns ! (k mod ?P))"
    using d m by (rule indices_Cons_nth)
  then have "indices (n # ns) ! k = (k div ?P) # (indices ns ! (k mod ?P))" by simp
  then show ?case using Cons.IH [OF m] by simp
qed

lemma set_indices: "set (indices shp) = {idx. valid_index shp idx}"
proof (intro set_eqI iffI)
  fix idx assume "idx \<in> set (indices shp)"
  then obtain k where "k < prod_list shp" "indices shp ! k = idx"
    by (auto simp: in_set_conv_nth)
  then show "idx \<in> {idx. valid_index shp idx}" using valid_index_indices by auto
next
  fix idx assume "idx \<in> {idx. valid_index shp idx}"
  then have v: "valid_index shp idx" by simp
  have "indices shp ! ravel shp idx \<in> set (indices shp)"
    using ravel_less [OF v] by (intro nth_mem) simp
  then show "idx \<in> set (indices shp)" by (simp add: indices_ravel [OF v])
qed

lemma tget0_mk: "valid_index shp idx \<Longrightarrow> tget0 (mk shp f) idx = f idx"
  using ravel_less [of shp idx] by (simp add: tget0_def mk_def indices_ravel)

lemma shape_mk [simp]: "shape (mk shp f) = shp"
  by (simp add: mk_def)

lemma length_data_mk [simp]: "length (data (mk shp f)) = prod_list shp"
  by (simp add: mk_def)

section \<open>Tensors: the operations by their elements\<close>

lemma tisI:
  "shape t = shp \<Longrightarrow> length (data t) = prod_list shp
   \<Longrightarrow> (\<And>idx. valid_index shp idx \<Longrightarrow> tget0 t idx = f idx) \<Longrightarrow> tis t shp f"
  by (simp add: tis_def)

lemma tis_shape: "tis t shp f \<Longrightarrow> shape t = shp"
  by (simp add: tis_def)

lemma tis_length: "tis t shp f \<Longrightarrow> length (data t) = prod_list shp"
  by (simp add: tis_def)

lemma tis_get: "tis t shp f \<Longrightarrow> valid_index shp idx \<Longrightarrow> tget0 t idx = f idx"
  by (simp add: tis_def)

lemma tis_mk: "tis (mk shp f) shp f"
  by (rule tisI) (simp_all add: tget0_mk)

lemma tis_mk_cong:
  "(\<And>idx. valid_index shp idx \<Longrightarrow> f idx = g idx) \<Longrightarrow> tis (mk shp f) shp g"
  by (rule tisI) (simp_all add: tget0_mk)

lemma valid_index1: "valid_index [a] idx \<longleftrightarrow> (\<exists>i. idx = [i] \<and> i < a)"
  by (auto simp: valid_index_Cons)

lemma valid_index2: "valid_index [a, b] idx \<longleftrightarrow> (\<exists>i j. idx = [i, j] \<and> i < a \<and> j < b)"
  by (auto simp: valid_index_Cons)

lemma valid_index3:
  "valid_index [a, b, c] idx \<longleftrightarrow> (\<exists>i j k. idx = [i, j, k] \<and> i < a \<and> j < b \<and> k < c)"
  by (auto simp: valid_index_Cons)

lemma valid_index4:
  "valid_index [a, b, c, d] idx
   \<longleftrightarrow> (\<exists>i j k l. idx = [i, j, k, l] \<and> i < a \<and> j < b \<and> k < c \<and> l < d)"
  by (auto simp: valid_index_Cons)

lemma tis_div_scalar: "tis t shp f \<Longrightarrow> tis (div_scalar t c) shp (\<lambda>idx. f idx / c)"
proof (rule tisI)
  assume t: "tis t shp f"
  show "shape (div_scalar t c) = shp" using t by (simp add: div_scalar_def tis_def)
  show "length (data (div_scalar t c)) = prod_list shp"
    using t by (simp add: div_scalar_def tis_def)
  fix idx assume v: "valid_index shp idx"
  have "ravel shp idx < length (data t)" using ravel_less [OF v] t by (simp add: tis_def)
  then have "tget0 (div_scalar t c) idx = tget0 t idx / c"
    using t by (simp add: div_scalar_def tget0_def tis_def)
  then show "tget0 (div_scalar t c) idx = f idx / c" using t v by (simp add: tis_def)
qed

lemma tis_redata:
  assumes t: "tis t shp f" and p: "prod_list shp' = prod_list shp"
    and g: "\<And>idx. valid_index shp' idx \<Longrightarrow> valid_index shp (g idx) \<and> ravel shp (g idx) = ravel shp' idx"
  shows "tis \<lparr>shape = shp', data = data t\<rparr> shp' (\<lambda>idx. f (g idx))"
proof (rule tisI)
  show "shape \<lparr>shape = shp', data = data t\<rparr> = shp'" by simp
  show "length (data \<lparr>shape = shp', data = data t\<rparr>) = prod_list shp'"
    using t p by (simp add: tis_def)
  fix idx assume v: "valid_index shp' idx"
  have "tget0 \<lparr>shape = shp', data = data t\<rparr> idx = data t ! ravel shp (g idx)"
    using g [OF v] by (simp add: tget0_def)
  also have "\<dots> = tget0 t (g idx)" using t by (simp add: tget0_def tis_def)
  also have "\<dots> = f (g idx)" using t g [OF v] by (simp add: tis_def)
  finally show "tget0 \<lparr>shape = shp', data = data t\<rparr> idx = f (g idx)" .
qed

lemma tis_linspace: "tis (linspace a b n) [n] (\<lambda>idx. linspace_val a b n (idx ! 0))"
  unfolding linspace_def by (rule tis_mk)

lemma int_neq_m1 [simp]: "int n \<noteq> - 1"
  by simp

lemma reshape_col:
  assumes "tis t [n] f"
  shows "\<exists>r. reshape [- 1, 1, 1] t = Inr r \<and> tis r [n, 1, 1] (\<lambda>idx. f [idx ! 0])"
proof -
  have r: "reshape [- 1, 1, 1] t = Inr \<lparr>shape = [n, 1, 1], data = data t\<rparr>"
    using assms by (simp add: reshape_def infer_size_def tis_def)
  have "tis \<lparr>shape = [n, 1, 1], data = data t\<rparr> [n, 1, 1] (\<lambda>idx. f [idx ! 0])"
    using assms by (rule tis_redata) (auto simp: valid_index3)
  with r show ?thesis by simp
qed

lemma reshape_row:
  assumes "tis t [n] f"
  shows "\<exists>r. reshape [1, 1, int n] t = Inr r \<and> tis r [1, 1, n] (\<lambda>idx. f [idx ! 2])"
proof -
  have r: "reshape [1, 1, int n] t = Inr \<lparr>shape = [1, 1, n], data = data t\<rparr>"
    using assms by (simp add: reshape_def infer_size_def tis_def)
  have "tis \<lparr>shape = [1, 1, n], data = data t\<rparr> [1, 1, n] (\<lambda>idx. f [idx ! 2])"
    using assms by (rule tis_redata) (auto simp: valid_index3)
  with r show ?thesis by simp
qed

lemma reshape_mid:
  assumes "tis t [n] f"
  shows "\<exists>r. reshape [1, int n, 1] t = Inr r \<and> tis r [1, n, 1] (\<lambda>idx. f [idx ! 1])"
proof -
  have r: "reshape [1, int n, 1] t = Inr \<lparr>shape = [1, n, 1], data = data t\<rparr>"
    using assms by (simp add: reshape_def infer_size_def tis_def)
  have "tis \<lparr>shape = [1, n, 1], data = data t\<rparr> [1, n, 1] (\<lambda>idx. f [idx ! 1])"
    using assms by (rule tis_redata) (auto simp: valid_index3)
  with r show ?thesis by simp
qed

lemma div_mod_index: "k < h * w \<Longrightarrow> k div w < h \<and> k mod w < (w::nat)"
  by (cases "w = 0") (auto simp: less_mult_imp_div_less mult.commute)

lemma reshape_flat2:
  assumes "tis t [h, w] f"
  shows "\<exists>r. reshape [- 1] t = Inr r \<and> tis r [h * w] (\<lambda>idx. f [idx ! 0 div w, idx ! 0 mod w])"
proof -
  have r: "reshape [- 1] t = Inr \<lparr>shape = [h * w], data = data t\<rparr>"
    using assms by (simp add: reshape_def infer_size_def tis_def)
  have "tis \<lparr>shape = [h * w], data = data t\<rparr> [h * w] (\<lambda>idx. f [idx ! 0 div w, idx ! 0 mod w])"
    using assms by (rule tis_redata) (auto simp: valid_index1 div_mod_index)
  with r show ?thesis by simp
qed

lemma flatten2_rank4:
  assumes "tis t [a, b, h, w] f"
  shows "\<exists>r. flatten 2 t = Inr r
           \<and> tis r [a, b, h * w] (\<lambda>idx. f [idx ! 0, idx ! 1, idx ! 2 div w, idx ! 2 mod w])"
proof -
  have r: "flatten 2 t = Inr \<lparr>shape = [a, b, h * w], data = data t\<rparr>"
    using assms by (simp add: flatten_def tis_def)
  have "tis \<lparr>shape = [a, b, h * w], data = data t\<rparr> [a, b, h * w]
          (\<lambda>idx. f [idx ! 0, idx ! 1, idx ! 2 div w, idx ! 2 mod w])"
    using assms
  proof (rule tis_redata)
    show "prod_list [a, b, h * w] = prod_list [a, b, h, w]" by simp
    fix idx assume "valid_index [a, b, h * w] idx"
    then obtain i j k where idx: "idx = [i, j, k]" and b: "i < a" "j < b" "k < h * w"
      by (auto simp: valid_index3)
    have "k div w * w + k mod w = k" by simp
    then have e: "j * (h * w) + (k div w * w + k mod w) = j * (h * w) + k" by simp
    show "valid_index [a, b, h, w] [idx ! 0, idx ! 1, idx ! 2 div w, idx ! 2 mod w]
          \<and> ravel [a, b, h, w] [idx ! 0, idx ! 1, idx ! 2 div w, idx ! 2 mod w]
              = ravel [a, b, h * w] idx"
      using b div_mod_index [OF b(3)] e by (simp add: idx)
  qed
  with r show ?thesis by simp
qed

lemma unsqueeze0_rank3:
  assumes "tis t [a, b, c] f"
  shows "\<exists>r. unsqueeze 0 t = Inr r \<and> tis r [1, a, b, c] (\<lambda>idx. f (tl idx))"
proof -
  have r: "unsqueeze 0 t = Inr \<lparr>shape = [1, a, b, c], data = data t\<rparr>"
    using assms by (simp add: unsqueeze_def tis_def)
  have "tis \<lparr>shape = [1, a, b, c], data = data t\<rparr> [1, a, b, c] (\<lambda>idx. f (tl idx))"
    using assms by (rule tis_redata) (auto simp: valid_index4)
  with r show ?thesis by simp
qed

lemma unsqueeze0_rank1:
  assumes "tis t [a] f"
  shows "\<exists>r. unsqueeze 0 t = Inr r \<and> tis r [1, a] (\<lambda>idx. f (tl idx))"
proof -
  have r: "unsqueeze 0 t = Inr \<lparr>shape = [1, a], data = data t\<rparr>"
    using assms by (simp add: unsqueeze_def tis_def)
  have "tis \<lparr>shape = [1, a], data = data t\<rparr> [1, a] (\<lambda>idx. f (tl idx))"
    using assms by (rule tis_redata) (auto simp: valid_index2)
  with r show ?thesis by simp
qed

lemma unsqueeze2_rank3:
  assumes "tis t [a, b, c] f"
  shows "\<exists>r. unsqueeze 2 t = Inr r \<and> tis r [a, b, 1, c] (\<lambda>idx. f [idx ! 0, idx ! 1, idx ! 3])"
proof -
  have r: "unsqueeze 2 t = Inr \<lparr>shape = [a, b, 1, c], data = data t\<rparr>"
    using assms by (simp add: unsqueeze_def tis_def)
  have "tis \<lparr>shape = [a, b, 1, c], data = data t\<rparr> [a, b, 1, c]
          (\<lambda>idx. f [idx ! 0, idx ! 1, idx ! 3])"
    using assms by (rule tis_redata) (auto simp: valid_index4)
  with r show ?thesis by simp
qed

lemma expand_col:
  assumes "tis t [d, 1, 1] f"
  shows "\<exists>r. expand [int d, int h, int w] t = Inr r \<and> tis r [d, h, w] (\<lambda>idx. f [idx ! 0, 0, 0])"
proof -
  have s: "shape t = [d, 1, 1]" using assms by (simp add: tis_def)
  have r: "expand [int d, int h, int w] t
             = Inr (mk [d, h, w] (\<lambda>idx. tget0 t (bidx [d, 1, 1] idx)))"
    by (simp add: expand_def s)
  have "tis (mk [d, h, w] (\<lambda>idx. tget0 t (bidx [d, 1, 1] idx))) [d, h, w] (\<lambda>idx. f [idx ! 0, 0, 0])"
  proof (rule tis_mk_cong)
    fix idx assume "valid_index [d, h, w] idx"
    then obtain i j k where "idx = [i, j, k]" "i < d" by (auto simp: valid_index3)
    then show "tget0 t (bidx [d, 1, 1] idx) = f [idx ! 0, 0, 0]"
      using tis_get [OF assms, of "[i, 0, 0]"] by (simp add: bidx_def)
  qed
  with r show ?thesis by simp
qed

lemma expand_row:
  assumes "tis t [1, 1, w] f"
  shows "\<exists>r. expand [int d, int h, int w] t = Inr r \<and> tis r [d, h, w] (\<lambda>idx. f [0, 0, idx ! 2])"
proof -
  have s: "shape t = [1, 1, w]" using assms by (simp add: tis_def)
  have r: "expand [int d, int h, int w] t
             = Inr (mk [d, h, w] (\<lambda>idx. tget0 t (bidx [1, 1, w] idx)))"
    by (simp add: expand_def s)
  have "tis (mk [d, h, w] (\<lambda>idx. tget0 t (bidx [1, 1, w] idx))) [d, h, w] (\<lambda>idx. f [0, 0, idx ! 2])"
  proof (rule tis_mk_cong)
    fix idx assume "valid_index [d, h, w] idx"
    then obtain i j k where "idx = [i, j, k]" "k < w" by (auto simp: valid_index3)
    then show "tget0 t (bidx [1, 1, w] idx) = f [0, 0, idx ! 2]"
      using tis_get [OF assms, of "[0, 0, k]"] by (simp add: bidx_def)
  qed
  with r show ?thesis by simp
qed

lemma expand_mid:
  assumes "tis t [1, h, 1] f"
  shows "\<exists>r. expand [int d, int h, int w] t = Inr r \<and> tis r [d, h, w] (\<lambda>idx. f [0, idx ! 1, 0])"
proof -
  have s: "shape t = [1, h, 1]" using assms by (simp add: tis_def)
  have r: "expand [int d, int h, int w] t
             = Inr (mk [d, h, w] (\<lambda>idx. tget0 t (bidx [1, h, 1] idx)))"
    by (simp add: expand_def s)
  have "tis (mk [d, h, w] (\<lambda>idx. tget0 t (bidx [1, h, 1] idx))) [d, h, w] (\<lambda>idx. f [0, idx ! 1, 0])"
  proof (rule tis_mk_cong)
    fix idx assume "valid_index [d, h, w] idx"
    then obtain i j k where "idx = [i, j, k]" "j < h" by (auto simp: valid_index3)
    then show "tget0 t (bidx [1, h, 1] idx) = f [0, idx ! 1, 0]"
      using tis_get [OF assms, of "[0, j, 0]"] by (simp add: bidx_def)
  qed
  with r show ?thesis by simp
qed

lemma stack_last3:
  assumes a: "tis ta [d, h, w] fa" and b: "tis tb [d, h, w] fb" and c: "tis tc [d, h, w] fc"
  shows "\<exists>r. stack_last [ta, tb, tc] = Inr r
           \<and> tis r [d, h, w, 3] (\<lambda>idx. ([fa, fb, fc] ! (idx ! 3)) [idx ! 0, idx ! 1, idx ! 2])"
proof -
  have s: "shape ta = [d, h, w]" "shape tb = [d, h, w]" "shape tc = [d, h, w]"
    using a b c by (simp_all add: tis_def)
  have r: "stack_last [ta, tb, tc]
             = Inr (mk [d, h, w, 3] (\<lambda>idx. tget0 ([ta, tb, tc] ! last idx) (butlast idx)))"
    by (simp add: stack_last_def s numeral_3_eq_3 [symmetric] numeral_2_eq_2 [symmetric])
  have "tis (mk [d, h, w, 3] (\<lambda>idx. tget0 ([ta, tb, tc] ! last idx) (butlast idx))) [d, h, w, 3]
          (\<lambda>idx. ([fa, fb, fc] ! (idx ! 3)) [idx ! 0, idx ! 1, idx ! 2])"
  proof (rule tis_mk_cong)
    fix idx assume "valid_index [d, h, w, 3] idx"
    then obtain i j k l where idx: "idx = [i, j, k, l]" and v: "valid_index [d, h, w] [i, j, k]"
      and l: "l < 3" by (auto simp: valid_index4)
    from l consider "l = 0" | "l = 1" | "l = 2" by linarith
    then show "tget0 ([ta, tb, tc] ! last idx) (butlast idx)
                 = ([fa, fb, fc] ! (idx ! 3)) [idx ! 0, idx ! 1, idx ! 2]"
      using tis_get [OF a v] tis_get [OF b v] tis_get [OF c v]
      by cases (simp_all add: idx)
  qed
  with r show ?thesis by simp
qed

lemma stack_last2:
  assumes a: "tis ta [d, h] fa" and b: "tis tb [d, h] fb"
  shows "\<exists>r. stack_last [ta, tb] = Inr r
           \<and> tis r [d, h, 2] (\<lambda>idx. ([fa, fb] ! (idx ! 2)) [idx ! 0, idx ! 1])"
proof -
  have s: "shape ta = [d, h]" "shape tb = [d, h]"
    using a b by (simp_all add: tis_def)
  have r: "stack_last [ta, tb]
             = Inr (mk [d, h, 2] (\<lambda>idx. tget0 ([ta, tb] ! last idx) (butlast idx)))"
    by (simp add: stack_last_def s numeral_3_eq_3 [symmetric] numeral_2_eq_2 [symmetric])
  have "tis (mk [d, h, 2] (\<lambda>idx. tget0 ([ta, tb] ! last idx) (butlast idx))) [d, h, 2]
          (\<lambda>idx. ([fa, fb] ! (idx ! 2)) [idx ! 0, idx ! 1])"
  proof (rule tis_mk_cong)
    fix idx assume "valid_index [d, h, 2] idx"
    then obtain i j l where idx: "idx = [i, j, l]" and v: "valid_index [d, h] [i, j]"
      and l: "l < 2" by (auto simp: valid_index3)
    from l consider "l = 0" | "l = 1" by linarith
    then show "tget0 ([ta, tb] ! last idx) (butlast idx) = ([fa, fb] ! (idx ! 2)) [idx ! 0, idx ! 1]"
      using tis_get [OF a v] tis_get [OF b v]
      by cases (simp_all add: idx)
  qed
  with r show ?thesis by simp
qed

lemma upt4: "[0..<4] = [0, 1, 2, 3]"
  by (simp add: upt_rec)

lemma upt3: "[0..<3] = [0, 1, 2]"
  by (simp add: upt_rec)

lemma permute_0312:
  assumes "tis t [d, h, w, c] f"
  shows "\<exists>r. permute [0, 3, 1, 2] t = Inr r
           \<and> tis r [d, c, h, w] (\<lambda>idx. f [idx ! 0, idx ! 2, idx ! 3, idx ! 1])"
proof -
  have s: "shape t = [d, h, w, c]" using assms by (simp add: tis_def)
  have r: "permute [0, 3, 1, 2] t
             = Inr (mk [d, c, h, w] (\<lambda>idx. tget0 t [idx ! 0, idx ! 2, idx ! 3, idx ! 1]))"
    by (simp add: permute_def s upt4 numeral_3_eq_3 [symmetric] numeral_2_eq_2 [symmetric])
  have "tis (mk [d, c, h, w] (\<lambda>idx. tget0 t [idx ! 0, idx ! 2, idx ! 3, idx ! 1])) [d, c, h, w]
          (\<lambda>idx. f [idx ! 0, idx ! 2, idx ! 3, idx ! 1])"
  proof (rule tis_mk_cong)
    fix idx assume "valid_index [d, c, h, w] idx"
    then have "valid_index [d, h, w, c] [idx ! 0, idx ! 2, idx ! 3, idx ! 1]"
      by (auto simp: valid_index4)
    then show "tget0 t [idx ! 0, idx ! 2, idx ! 3, idx ! 1] = f [idx ! 0, idx ! 2, idx ! 3, idx ! 1]"
      by (rule tis_get [OF assms])
  qed
  with r show ?thesis by simp
qed

lemma permute_021:
  assumes "tis t [d, c, n] f"
  shows "\<exists>r. permute [0, 2, 1] t = Inr r \<and> tis r [d, n, c] (\<lambda>idx. f [idx ! 0, idx ! 2, idx ! 1])"
proof -
  have s: "shape t = [d, c, n]" using assms by (simp add: tis_def)
  have r: "permute [0, 2, 1] t = Inr (mk [d, n, c] (\<lambda>idx. tget0 t [idx ! 0, idx ! 2, idx ! 1]))"
    by (simp add: permute_def s upt3 numeral_3_eq_3 [symmetric] numeral_2_eq_2 [symmetric])
  have "tis (mk [d, n, c] (\<lambda>idx. tget0 t [idx ! 0, idx ! 2, idx ! 1])) [d, n, c]
          (\<lambda>idx. f [idx ! 0, idx ! 2, idx ! 1])"
  proof (rule tis_mk_cong)
    fix idx assume "valid_index [d, n, c] idx"
    then have "valid_index [d, c, n] [idx ! 0, idx ! 2, idx ! 1]"
      by (auto simp: valid_index3)
    then show "tget0 t [idx ! 0, idx ! 2, idx ! 1] = f [idx ! 0, idx ! 2, idx ! 1]"
      by (rule tis_get [OF assms])
  qed
  with r show ?thesis by simp
qed

lemma repeat_batch4:
  assumes "tis t [1, a, b, c] f"
  shows "\<exists>r. repeat [bs, 1, 1, 1] t = Inr r \<and> tis r [bs, a, b, c] (\<lambda>idx. f (0 # tl idx))"
proof -
  have s: "shape t = [1, a, b, c]" using assms by (simp add: tis_def)
  have r: "repeat [bs, 1, 1, 1] t = Inr (mk [bs, a, b, c] (\<lambda>idx. tget0 t (bidx [1, a, b, c] idx)))"
    by (simp add: repeat_def s)
  have "tis (mk [bs, a, b, c] (\<lambda>idx. tget0 t (bidx [1, a, b, c] idx))) [bs, a, b, c]
          (\<lambda>idx. f (0 # tl idx))"
  proof (rule tis_mk_cong)
    fix idx assume "valid_index [bs, a, b, c] idx"
    then obtain i j k l where "idx = [i, j, k, l]" "j < a" "k < b" "l < c"
      by (auto simp: valid_index4)
    then show "tget0 t (bidx [1, a, b, c] idx) = f (0 # tl idx)"
      using tis_get [OF assms, of "[0, j, k, l]"] by (simp add: bidx_def)
  qed
  with r show ?thesis by simp
qed

lemma repeat_batch3:
  assumes "tis t [1, a, b] f"
  shows "\<exists>r. repeat [bs, 1, 1] t = Inr r \<and> tis r [bs, a, b] (\<lambda>idx. f (0 # tl idx))"
proof -
  have s: "shape t = [1, a, b]" using assms by (simp add: tis_def)
  have r: "repeat [bs, 1, 1] t = Inr (mk [bs, a, b] (\<lambda>idx. tget0 t (bidx [1, a, b] idx)))"
    by (simp add: repeat_def s)
  have "tis (mk [bs, a, b] (\<lambda>idx. tget0 t (bidx [1, a, b] idx))) [bs, a, b]
          (\<lambda>idx. f (0 # tl idx))"
  proof (rule tis_mk_cong)
    fix idx assume "valid_index [bs, a, b] idx"
    then obtain i j k where "idx = [i, j, k]" "j < a" "k < b"
      by (auto simp: valid_index3)
    then show "tget0 t (bidx [1, a, b] idx) = f (0 # tl idx)"
      using tis_get [OF assms, of "[0, j, k]"] by (simp add: bidx_def)
  qed
  with r show ?thesis by simp
qed

lemma meshgrid_tis:
  assumes a: "tis ta [h] fa" and b: "tis tb [w] fb"
  shows "\<exists>ry rx. meshgrid ta tb = Inr (ry, rx)
           \<and> tis ry [h, w] (\<lambda>idx. fa [idx ! 0]) \<and> tis rx [h, w] (\<lambda>idx. fb [idx ! 1])"
proof -
  have s: "shape ta = [h]" "shape tb = [w]" using a b by (simp_all add: tis_def)
  have r: "meshgrid ta tb = Inr (mk [h, w] (\<lambda>idx. tget0 ta [idx ! 0]), mk [h, w] (\<lambda>idx. tget0 tb [idx ! 1]))"
    by (simp add: meshgrid_def s Let_def)
  have y: "tis (mk [h, w] (\<lambda>idx. tget0 ta [idx ! 0])) [h, w] (\<lambda>idx. fa [idx ! 0])"
  proof (rule tis_mk_cong)
    fix idx assume "valid_index [h, w] idx"
    then have "valid_index [h] [idx ! 0]" by (auto simp: valid_index2)
    then show "tget0 ta [idx ! 0] = fa [idx ! 0]" by (rule tis_get [OF a])
  qed
  have x: "tis (mk [h, w] (\<lambda>idx. tget0 tb [idx ! 1])) [h, w] (\<lambda>idx. fb [idx ! 1])"
  proof (rule tis_mk_cong)
    fix idx assume "valid_index [h, w] idx"
    then have "valid_index [w] [idx ! 1]" by (auto simp: valid_index2)
    then show "tget0 tb [idx ! 1] = fb [idx ! 1]" by (rule tis_get [OF b])
  qed
  from r x y show ?thesis by simp
qed

section \<open>Reference points: shape and elements\<close>

lemma tis_cong:
  "tis t shp f \<Longrightarrow> (\<And>idx. valid_index shp idx \<Longrightarrow> f idx = g idx) \<Longrightarrow> tis t shp g"
  by (simp add: tis_def)

lemma get_reference_points_3d_tis:
  "\<exists>r. get_reference_points_3d H W Z D bs = Inr r \<and> tis r [bs, D, H * W, 3] (ref_3d_elem H W Z D)"
proof -
  let ?lz = "linspace_val 0.5 (Z - 0.5) D" and ?lx = "linspace_val 0.5 (real W - 0.5) W"
    and ?ly = "linspace_val 0.5 (real H - 0.5) H"
  obtain zv where zv: "reshape [- 1, 1, 1] (linspace 0.5 (Z - 0.5) D) = Inr zv"
    and zvt: "tis zv [D, 1, 1] (\<lambda>idx. ?lz (idx ! 0))"
    using reshape_col [OF tis_linspace [of "0.5" "Z - 0.5" D]] by auto
  obtain ze where ze: "expand [int D, int H, int W] zv = Inr ze"
    and zet: "tis ze [D, H, W] (\<lambda>idx. ?lz (idx ! 0))"
    using expand_col [OF zvt] by auto
  have zst: "tis (div_scalar ze Z) [D, H, W] (\<lambda>idx. ?lz (idx ! 0) / Z)"
    using zet by (rule tis_div_scalar)
  obtain xv where xv: "reshape [1, 1, int W] (linspace 0.5 (real W - 0.5) W) = Inr xv"
    and xvt: "tis xv [1, 1, W] (\<lambda>idx. ?lx (idx ! 2))"
    using reshape_row [OF tis_linspace [of "0.5" "real W - 0.5" W]] by auto
  obtain xe where xe: "expand [int D, int H, int W] xv = Inr xe"
    and xet: "tis xe [D, H, W] (\<lambda>idx. ?lx (idx ! 2))"
    using expand_row [OF xvt] by auto
  have xst: "tis (div_scalar xe (real W)) [D, H, W] (\<lambda>idx. ?lx (idx ! 2) / real W)"
    using xet by (rule tis_div_scalar)
  obtain yv where yv: "reshape [1, int H, 1] (linspace 0.5 (real H - 0.5) H) = Inr yv"
    and yvt: "tis yv [1, H, 1] (\<lambda>idx. ?ly (idx ! 1))"
    using reshape_mid [OF tis_linspace [of "0.5" "real H - 0.5" H]] by auto
  obtain ye where ye: "expand [int D, int H, int W] yv = Inr ye"
    and yet: "tis ye [D, H, W] (\<lambda>idx. ?ly (idx ! 1))"
    using expand_mid [OF yvt] by auto
  have yst: "tis (div_scalar ye (real H)) [D, H, W] (\<lambda>idx. ?ly (idx ! 1) / real H)"
    using yet by (rule tis_div_scalar)
  let ?pt = "\<lambda>c i j d. [?lx j / real W, ?ly i / real H, ?lz d / Z] ! c"
  obtain st where st: "stack_last [div_scalar xe (real W), div_scalar ye (real H), div_scalar ze Z] = Inr st"
    and st0: "tis st [D, H, W, 3]
       (\<lambda>idx. ([\<lambda>idx. ?lx (idx ! 2) / real W, \<lambda>idx. ?ly (idx ! 1) / real H,
                 \<lambda>idx. ?lz (idx ! 0) / Z] ! (idx ! 3)) [idx ! 0, idx ! 1, idx ! 2])"
    using stack_last3 [OF xst yst zst] by blast
  have stt: "tis st [D, H, W, 3] (\<lambda>idx. ?pt (idx ! 3) (idx ! 1) (idx ! 2) (idx ! 0))"
  proof (rule tis_cong [OF st0])
    fix idx assume "valid_index [D, H, W, 3] idx"
    then obtain i j k l where idx: "idx = [i, j, k, l]" and l: "l < 3"
      by (auto simp: valid_index4)
    from l consider "l = 0" | "l = 1" | "l = 2" by linarith
    then show "([\<lambda>idx. ?lx (idx ! 2) / real W, \<lambda>idx. ?ly (idx ! 1) / real H,
                 \<lambda>idx. ?lz (idx ! 0) / Z] ! (idx ! 3)) [idx ! 0, idx ! 1, idx ! 2]
               = ?pt (idx ! 3) (idx ! 1) (idx ! 2) (idx ! 0)"
      by cases (simp_all add: idx)
  qed
  obtain p1 where p1: "permute [0, 3, 1, 2] st = Inr p1"
    and p1t: "tis p1 [D, 3, H, W] (\<lambda>idx. ?pt (idx ! 1) (idx ! 2) (idx ! 3) (idx ! 0))"
    using permute_0312 [OF stt] by auto
  obtain fl where fl: "flatten 2 p1 = Inr fl"
    and flt: "tis fl [D, 3, H * W] (\<lambda>idx. ?pt (idx ! 1) (idx ! 2 div W) (idx ! 2 mod W) (idx ! 0))"
    using flatten2_rank4 [OF p1t] by auto
  obtain p2 where p2: "permute [0, 2, 1] fl = Inr p2"
    and p2t: "tis p2 [D, H * W, 3] (\<lambda>idx. ?pt (idx ! 2) (idx ! 1 div W) (idx ! 1 mod W) (idx ! 0))"
    using permute_021 [OF flt] by auto
  obtain u where u: "unsqueeze 0 p2 = Inr u"
    and ut: "tis u [1, D, H * W, 3]
               (\<lambda>idx. ?pt (tl idx ! 2) (tl idx ! 1 div W) (tl idx ! 1 mod W) (tl idx ! 0))"
    using unsqueeze0_rank3 [OF p2t] by auto
  obtain r where r: "repeat [bs, 1, 1, 1] u = Inr r"
    and rt0: "tis r [bs, D, H * W, 3]
               (\<lambda>idx. ?pt (tl idx ! 2) (tl idx ! 1 div W) (tl idx ! 1 mod W) (tl idx ! 0))"
    using repeat_batch4 [OF ut] by auto
  have rt: "tis r [bs, D, H * W, 3] (ref_3d_elem H W Z D)"
  proof (rule tis_cong [OF rt0])
    fix idx assume "valid_index [bs, D, H * W, 3] idx"
    then obtain i j k l where idx: "idx = [i, j, k, l]" and l: "l < 3"
      by (auto simp: valid_index4)
    from l consider "l = 0" | "l = 1" | "l = 2" by linarith
    then show "?pt (tl idx ! 2) (tl idx ! 1 div W) (tl idx ! 1 mod W) (tl idx ! 0)
               = ref_3d_elem H W Z D idx"
      by cases (simp_all add: idx ref_3d_elem_def)
  qed
  have "get_reference_points_3d H W Z D bs = Inr r"
    by (simp only: get_reference_points_3d_def Let_def zv ze xv xe yv ye st p1 fl p2 u r bindE_Inr)
  with rt show ?thesis by simp
qed

lemma get_reference_points_2d_tis:
  "\<exists>r. get_reference_points_2d H W bs = Inr r \<and> tis r [bs, H * W, 1, 2] (ref_2d_elem H W)"
proof -
  let ?lx = "linspace_val 0.5 (real W - 0.5) W" and ?ly = "linspace_val 0.5 (real H - 0.5) H"
  obtain my mx where m: "meshgrid (linspace 0.5 (real H - 0.5) H) (linspace 0.5 (real W - 0.5) W)
                           = Inr (my, mx)"
    and myt: "tis my [H, W] (\<lambda>idx. ?ly (idx ! 0))" and mxt: "tis mx [H, W] (\<lambda>idx. ?lx (idx ! 1))"
    using meshgrid_tis [OF tis_linspace [of "0.5" "real H - 0.5" H] tis_linspace [of "0.5" "real W - 0.5" W]] by auto
  obtain ry where ry: "reshape [- 1] my = Inr ry"
    and ryt: "tis ry [H * W] (\<lambda>idx. ?ly (idx ! 0 div W))"
    using reshape_flat2 [OF myt] by auto
  obtain uy where uy: "unsqueeze 0 ry = Inr uy"
    and uyt: "tis uy [1, H * W] (\<lambda>idx. ?ly (tl idx ! 0 div W))"
    using unsqueeze0_rank1 [OF ryt] by auto
  have yt: "tis (div_scalar uy (real H)) [1, H * W] (\<lambda>idx. ?ly (tl idx ! 0 div W) / real H)"
    using uyt by (rule tis_div_scalar)
  obtain rx where rx: "reshape [- 1] mx = Inr rx"
    and rxt: "tis rx [H * W] (\<lambda>idx. ?lx (idx ! 0 mod W))"
    using reshape_flat2 [OF mxt] by auto
  obtain ux where ux: "unsqueeze 0 rx = Inr ux"
    and uxt: "tis ux [1, H * W] (\<lambda>idx. ?lx (tl idx ! 0 mod W))"
    using unsqueeze0_rank1 [OF rxt] by auto
  have xt: "tis (div_scalar ux (real W)) [1, H * W] (\<lambda>idx. ?lx (tl idx ! 0 mod W) / real W)"
    using uxt by (rule tis_div_scalar)
  obtain st where st: "stack_last [div_scalar ux (real W), div_scalar uy (real H)] = Inr st"
    and stt: "tis st [1, H * W, 2]
       (\<lambda>idx. ([\<lambda>idx. ?lx (tl idx ! 0 mod W) / real W, \<lambda>idx. ?ly (tl idx ! 0 div W) / real H]
                 ! (idx ! 2)) [idx ! 0, idx ! 1])"
    using stack_last2 [OF xt yt] by blast
  obtain rp where rp: "repeat [bs, 1, 1] st = Inr rp"
    and rpt: "tis rp [bs, H * W, 2]
       (\<lambda>idx. ([\<lambda>idx. ?lx (tl idx ! 0 mod W) / real W, \<lambda>idx. ?ly (tl idx ! 0 div W) / real H]
                 ! ((0 # tl idx) ! 2)) [(0 # tl idx) ! 0, (0 # tl idx) ! 1])"
    using repeat_batch3 [OF stt] by blast
  obtain r where r: "unsqueeze 2 rp = Inr r"
    and rt0: "tis r [bs, H * W, 1, 2]
       (\<lambda>i4. (\<lambda>idx. ([\<lambda>idx. ?lx (tl idx ! 0 mod W) / real W, \<lambda>idx. ?ly (tl idx ! 0 div W) / real H]
                 ! ((0 # tl idx) ! 2)) [(0 # tl idx) ! 0, (0 # tl idx) ! 1]) [i4 ! 0, i4 ! 1, i4 ! 3])"
    using unsqueeze2_rank3 [OF rpt] by blast
  have rt: "tis r [bs, H * W, 1, 2] (ref_2d_elem H W)"
  proof (rule tis_cong [OF rt0])
    fix idx assume "valid_index [bs, H * W, 1, 2] idx"
    then obtain i j k l where idx: "idx = [i, j, k, l]" and l: "l < 2"
      by (auto simp: valid_index4)
    from l consider "l = 0" | "l = 1" by linarith
    then show "(\<lambda>idx. ([\<lambda>idx. ?lx (tl idx ! 0 mod W) / real W, \<lambda>idx. ?ly (tl idx ! 0 div W) / real H]
                 ! ((0 # tl idx) ! 2)) [(0 # tl idx) ! 0, (0 # tl idx) ! 1]) [idx ! 0, idx ! 1, idx ! 3]
               = ref_2d_elem H W idx"
      by cases (simp_all add: idx ref_2d_elem_def)
  qed
  have "get_reference_points_2d H W bs = Inr r"
    by (simp only: get_reference_points_2d_def Let_def m ry uy rx ux st rp r bindE_Inr prod.case)
  with rt show ?thesis by simp
qed

lemma tis_data: "tis t shp f \<Longrightarrow> data t = map f (indices shp)"
proof (rule nth_equalityI)
  assume t: "tis t shp f"
  show "length (data t) = length (map f (indices shp))" using t by (simp add: tis_def)
  fix k assume "k < length (data t)"
  then have k: "k < prod_list shp" using t by (simp add: tis_def)
  have "tget0 t (indices shp ! k) = f (indices shp ! k)"
    using t valid_index_indices [OF k] by (simp add: tis_def)
  then show "data t ! k = map f (indices shp) ! k"
    using t k by (simp add: tget0_def ravel_indices tis_def)
qed

lemma tis_tget: "tis t shp f \<Longrightarrow> valid_index shp idx \<Longrightarrow> tget t idx = Some (f idx)"
  by (simp add: tget_def tis_def)

lemma linspace_cell: "i < n \<Longrightarrow> linspace_val 0.5 (real n - 0.5) n i = real i + 0.5"
  by (cases "n = 1") (auto simp: linspace_val_def)

lemma cell_bounds:
  assumes "i < n"
  shows "0 < linspace_val 0.5 (real n - 0.5) n i / real n \<and> linspace_val 0.5 (real n - 0.5) n i / real n < 1"
proof -
  have n: "0 < real n" using assms by simp
  have "real i + 1 \<le> real n" using assms by linarith
  then have "real i + 0.5 < real n" by simp
  then show ?thesis unfolding linspace_cell [OF assms] using n by (simp add: add_pos_nonneg)
qed

lemma depth_range:
  assumes d: "d < D" and Z: "1 \<le> Z"
  shows "0.5 \<le> linspace_val 0.5 (Z - 0.5) D d \<and> linspace_val 0.5 (Z - 0.5) D d \<le> Z - 0.5"
proof (cases "D = 1")
  case True
  then show ?thesis using Z by (simp add: linspace_val_def)
next
  case False
  then have D: "0 < real (D - 1)" using d by simp
  have dd: "real d \<le> real (D - 1)" using d by simp
  let ?s = "(Z - 0.5 - 0.5) / real (D - 1)"
  have s0: "0 \<le> ?s" using Z D by simp
  have "real d * ?s \<le> real (D - 1) * ?s" using dd s0 by (rule mult_right_mono)
  also have "\<dots> = Z - 1" using D by simp
  finally have up: "real d * ?s \<le> Z - 1" .
  have lo: "0 \<le> real d * ?s" using s0 by (intro mult_nonneg_nonneg) simp_all
  show ?thesis using False lo up by (simp add: linspace_val_def)
qed

lemma depth_range_small:
  assumes d: "d < D" and Z: "Z \<le> 1"
  shows "Z - 0.5 \<le> linspace_val 0.5 (Z - 0.5) D d \<and> linspace_val 0.5 (Z - 0.5) D d \<le> 0.5"
proof (cases "D = 1")
  case True
  then show ?thesis using Z by (simp add: linspace_val_def)
next
  case False
  then have D: "0 < real (D - 1)" using d by simp
  have dd: "real d \<le> real (D - 1)" using d by simp
  let ?s = "(1 - Z) / real (D - 1)"
  have s0: "0 \<le> ?s" using Z D by simp
  have "real d * ?s \<le> real (D - 1) * ?s" using dd s0 by (rule mult_right_mono)
  also have "\<dots> = 1 - Z" using D by simp
  finally have up: "real d * ?s \<le> 1 - Z" .
  have lo: "0 \<le> real d * ?s" using s0 by (intro mult_nonneg_nonneg) simp_all
  have "Z - 0.5 - 0.5 = - (1 - Z)" by simp
  then have "(Z - 0.5 - 0.5) / real (D - 1) = - ?s" by (simp only: minus_divide_left)
  then have "linspace_val 0.5 (Z - 0.5) D d = 0.5 - real d * ?s"
    using False by (simp add: linspace_val_def)
  then show ?thesis using lo up by simp
qed

lemma depth_first: "linspace_val (1 / 2) (Z - 1 / 2) D 0 = 1 / 2"
  by (simp add: linspace_val_def)

lemma depth_bounds:
  assumes d: "d < D" and Z: "1 / 2 < Z"
  shows "0 < linspace_val 0.5 (Z - 0.5) D d / Z \<and> linspace_val 0.5 (Z - 0.5) D d / Z < 1"
proof -
  have z: "0 < Z" using Z by simp
  show ?thesis
  proof (cases "1 \<le> Z")
    case True
    from depth_range [OF d True] show ?thesis using z by simp
  next
    case False
    then have "Z \<le> 1" by simp
    from depth_range_small [OF d this] show ?thesis using z Z by simp
  qed
qed

lemma ref_3d_elem_bounds:
  assumes v: "valid_index [bs, D, H * W, 3] idx" and Z: "1 / 2 < Z"
  shows "0 < ref_3d_elem H W Z D idx \<and> ref_3d_elem H W Z D idx < 1"
proof -
  from v obtain b d k c where idx: "idx = [b, d, k, c]" and d: "d < D" and k: "k < H * W"
    by (auto simp: valid_index4)
  from div_mod_index [OF k] have kd: "k div W < H" and km: "k mod W < W" by simp_all
  show ?thesis
    using cell_bounds [OF kd] cell_bounds [OF km] depth_bounds [OF d Z]
    by (simp add: ref_3d_elem_def idx)
qed

lemma ref_2d_elem_bounds:
  assumes v: "valid_index [bs, H * W, 1, 2] idx"
  shows "0 < ref_2d_elem H W idx \<and> ref_2d_elem H W idx < 1"
proof -
  from v obtain b k z c where idx: "idx = [b, k, z, c]" and k: "k < H * W"
    by (auto simp: valid_index4)
  from div_mod_index [OF k] have kd: "k div W < H" and km: "k mod W < W" by simp_all
  show ?thesis
    using cell_bounds [OF kd] cell_bounds [OF km]
    by (simp add: ref_2d_elem_def idx)
qed

section \<open>Reference points: the claims\<close>

text \<open>
  C3. For positive \<open>H\<close>, \<open>W\<close>, \<open>D\<close>, \<open>bs\<close> and every real \<open>Z > 0\<close>,
  \<open>get_reference_points(H, W, Z, D, dim='3d', bs)\<close> returns a tensor of shape
  \<open>(bs, D, H*W, 3)\<close>, that is \<open>D*H*W\<close> points for each batch element. The \<open>z\<close> of the
  first depth sample is \<open>0.5 / Z\<close>, and all coordinates lie strictly between 0 and 1
  exactly when \<open>Z > 1/2\<close>: the offset 0.5 bounds \<open>x\<close> and \<open>y\<close>, whose cell counts are
  integers, but not \<open>z\<close> for a height \<open>Z\<close> of at most one half.
\<close>

theorem reference_points_3d_count_and_range:
  assumes "0 < H" and "0 < W" and "0 < (Z::real)" and "0 < D" and "0 < bs"
  shows "\<exists>r. get_reference_points H W Z D ''3d'' bs = Inr (Some r)
           \<and> shape r = [bs, D, H * W, 3]
           \<and> length (data r) = bs * (D * H * W) * 3
           \<and> (\<forall>b < bs. \<forall>k < H * W. tget r [b, 0, k, 2] = Some (0.5 / Z))
           \<and> ((\<forall>v \<in> set (data r). 0 < v \<and> v < 1) \<longleftrightarrow> 1 / 2 < Z)"
proof -
  obtain r where r: "get_reference_points_3d H W Z D bs = Inr r"
    and t: "tis r [bs, D, H * W, 3] (ref_3d_elem H W Z D)"
    using get_reference_points_3d_tis by blast
  have sh: "shape r = [bs, D, H * W, 3]" using t by (simp add: tis_def)
  have ln: "length (data r) = bs * (D * H * W) * 3" using t by (simp add: tis_def)
  have first: "tget r [b, 0, k, 2] = Some (0.5 / Z)" if "b < bs" and "k < H * W" for b k
  proof -
    have "valid_index [bs, D, H * W, 3] [b, 0, k, 2]"
      using that assms(4) by (simp add: valid_index4)
    from tis_tget [OF t this] show ?thesis
      using assms(4) by (simp add: ref_3d_elem_def depth_first)
  qed
  have rng: "(\<forall>v \<in> set (data r). 0 < v \<and> v < 1) \<longleftrightarrow> 1 / 2 < Z"
  proof
    assume Z: "1 / 2 < Z"
    show "\<forall>v \<in> set (data r). 0 < v \<and> v < 1"
      unfolding tis_data [OF t] using ref_3d_elem_bounds [OF _ Z, of bs D H W]
      by (auto simp: set_indices)
  next
    assume a: "\<forall>v \<in> set (data r). 0 < v \<and> v < 1"
    have v: "valid_index [bs, D, H * W, 3] [0, 0, 0, 2]"
      using assms(1,2,4,5) by (simp add: valid_index4)
    then have "[0, 0, 0, 2] \<in> set (indices [bs, D, H * W, 3])"
      by (simp only: set_indices mem_Collect_eq)
    then have "ref_3d_elem H W Z D [0, 0, 0, 2] \<in> set (data r)"
      unfolding tis_data [OF t] set_map by (rule imageI)
    with a have "ref_3d_elem H W Z D [0, 0, 0, 2] < 1" by blast
    then have "0.5 / Z < 1" using assms(4) by (simp add: ref_3d_elem_def depth_first)
    then show "1 / 2 < Z" using assms(3) by (simp add: field_simps)
  qed
  have "get_reference_points H W Z D ''3d'' bs = Inr (Some r)"
    by (simp add: get_reference_points_def r)
  with sh ln first rng show ?thesis by blast
qed

theorem reference_points_3d_count_and_range_witness:
  "\<exists>r. get_reference_points 2 3 (3 / 4) 4 ''3d'' 2 = Inr (Some r)
       \<and> shape r = [2, 4, 6, 3] \<and> length (data r) = 144
       \<and> tget r [1, 0, 5, 2] = Some (2 / 3)
       \<and> list_all (\<lambda>v. 0 < v \<and> v < 1) (data r)"
proof -
  from reference_points_3d_count_and_range [of 2 3 "3 / 4" 4 2]
  obtain r where r: "get_reference_points 2 3 (3 / 4) 4 ''3d'' 2 = Inr (Some r)"
    and s: "shape r = [2, 2 * 2, 2 * 3, 3]" and l: "length (data r) = 2 * (4 * 2 * 3) * 3"
    and f: "\<forall>b < 2. \<forall>k < 2 * 3. tget r [b, 0, k, 2] = Some (0.5 / (3 / 4))"
    and i: "(\<forall>v \<in> set (data r). 0 < v \<and> v < 1) \<longleftrightarrow> 1 / 2 < (3 / 4 :: real)"
    by auto
  have "tget r [1, 0, 5, 2] = Some (0.5 / (3 / 4))" by (rule f [rule_format]) simp_all
  then have "tget r [1, 0, 5, 2] = Some (2 / 3)" by simp
  moreover have "list_all (\<lambda>v. 0 < v \<and> v < 1) (data r)" using i by (simp add: list_all_iff)
  ultimately show ?thesis using r s l by auto
qed

text \<open>
  The claim fails for a positive \<open>Z\<close> of at most one half: with \<open>H = W = D = bs = 1\<close> and
  \<open>Z = 1/2\<close> the one point returned is \<open>(0.5, 0.5, 1)\<close>, whose \<open>z\<close> is not below 1.
\<close>

theorem reference_points_3d_small_Z_counterexample:
  "get_reference_points 1 1 (1 / 2) 1 ''3d'' 1
     = Inr (Some \<lparr>shape = [1, 1, 1, 3], data = [1 / 2, 1 / 2, 1]\<rparr>)"
  by code_simp

text \<open>
  C4. \<open>get_reference_points(H=2, W=2, Z=8, D=1, dim='3d')\<close> (with the default
  \<open>bs=1\<close>) is the tensor of shape \<open>(1, 1, 4, 3)\<close> whose four points, in output order,
  are \<open>(0.25, 0.25)\<close>, \<open>(0.75, 0.25)\<close>, \<open>(0.25, 0.75)\<close>, \<open>(0.75, 0.75)\<close>, each with
  \<open>z = 0.0625\<close>.
\<close>

theorem reference_points_3d_scenario:
  "get_reference_points 2 2 8 1 ''3d'' 1 =
     Inr (Some \<lparr>shape = [1, 1, 4, 3],
                data = [0.25, 0.25, 0.0625,  0.75, 0.25, 0.0625,
                        0.25, 0.75, 0.0625,  0.75, 0.75, 0.0625]\<rparr>)"
  by code_simp

text \<open>
  C5. For positive \<open>H\<close>, \<open>W\<close> and \<open>bs\<close>, \<open>get_reference_points(H, W, dim='2d', bs)\<close>
  returns a tensor of shape \<open>(bs, H*W, 1, 2)\<close>, that is \<open>H*W\<close> points for each batch
  element, with every coordinate strictly between 0 and 1; and the point of cell \<open>i\<close>
  is the \<open>(x, y)\<close> pair of the 3D generator's point of cell \<open>i\<close> at every depth sample
  \<open>d\<close>, for the same \<open>H\<close>, \<open>W\<close> and any \<open>Z\<close>, \<open>D\<close>.
\<close>

theorem reference_points_2d_cross_section:
  assumes "0 < H" and "0 < W" and "0 < bs"
  shows "\<exists>r2 r3. get_reference_points H W Z' D' ''2d'' bs = Inr (Some r2)
           \<and> get_reference_points H W Z D ''3d'' bs = Inr (Some r3)
           \<and> shape r2 = [bs, H * W, 1, 2]
           \<and> length (data r2) = bs * (H * W) * 2
           \<and> (\<forall>v \<in> set (data r2). 0 < v \<and> v < 1)
           \<and> (\<forall>b < bs. \<forall>d < D. \<forall>i < H * W. \<forall>c < 2.
                 tget r2 [b, i, 0, c] \<noteq> None \<and> tget r2 [b, i, 0, c] = tget r3 [b, d, i, c])"
proof -
  obtain r3 where r3: "get_reference_points_3d H W Z D bs = Inr r3"
    and t3: "tis r3 [bs, D, H * W, 3] (ref_3d_elem H W Z D)"
    using get_reference_points_3d_tis by blast
  obtain r2 where r2: "get_reference_points_2d H W bs = Inr r2"
    and t2: "tis r2 [bs, H * W, 1, 2] (ref_2d_elem H W)"
    using get_reference_points_2d_tis by blast
  have rng: "\<forall>v \<in> set (data r2). 0 < v \<and> v < 1"
    unfolding tis_data [OF t2] using ref_2d_elem_bounds [of bs H W]
    by (auto simp: set_indices)
  have eq: "\<forall>b < bs. \<forall>d < D. \<forall>i < H * W. \<forall>c < 2.
              tget r2 [b, i, 0, c] \<noteq> None \<and> tget r2 [b, i, 0, c] = tget r3 [b, d, i, c]"
  proof (intro allI impI)
    fix b d i c :: nat
    assume b: "b < bs" and d: "d < D" and i: "i < H * W" and c: "c < 2"
    have v2: "valid_index [bs, H * W, 1, 2] [b, i, 0, c]" using b i c by simp
    have v3: "valid_index [bs, D, H * W, 3] [b, d, i, c]" using b d i c by simp
    have "ref_2d_elem H W [b, i, 0, c] = ref_3d_elem H W Z D [b, d, i, c]"
      using c by (auto simp: ref_2d_elem_def ref_3d_elem_def)
    then show "tget r2 [b, i, 0, c] \<noteq> None \<and> tget r2 [b, i, 0, c] = tget r3 [b, d, i, c]"
      by (simp add: tis_tget [OF t2 v2] tis_tget [OF t3 v3])
  qed
  have sh: "shape r2 = [bs, H * W, 1, 2]" using t2 by (simp add: tis_def)
  have ln: "length (data r2) = bs * (H * W) * 2" using t2 by (simp add: tis_def)
  have g2: "get_reference_points H W Z' D' ''2d'' bs = Inr (Some r2)"
    by (simp add: get_reference_points_def r2)
  have g3: "get_reference_points H W Z D ''3d'' bs = Inr (Some r3)"
    by (simp add: get_reference_points_def r3)
  from g2 g3 sh ln rng eq show ?thesis by blast
qed

theorem reference_points_2d_cross_section_witness:
  "\<exists>r2 r3. get_reference_points 2 3 8 4 ''2d'' 2 = Inr (Some r2)
       \<and> get_reference_points 2 3 8 4 ''3d'' 2 = Inr (Some r3)
       \<and> shape r2 = [2, 6, 1, 2]
       \<and> tget r2 [1, 4, 0, 1] \<noteq> None \<and> tget r2 [1, 4, 0, 1] = tget r3 [1, 3, 4, 1]"
proof -
  have "(0::nat) < 2" and "(0::nat) < 3" by simp_all
  from reference_points_2d_cross_section [OF this this(1), of 8 4 8 4]
  obtain r2 r3 where g: "get_reference_points 2 3 8 4 ''2d'' 2 = Inr (Some r2)"
      "get_reference_points 2 3 8 4 ''3d'' 2 = Inr (Some r3)" "shape r2 = [2, 6, 1, 2]"
    and eq: "\<forall>b < 2. \<forall>d < 4. \<forall>i < 2 * 3. \<forall>c < 2.
              tget r2 [b, i, 0, c] \<noteq> None \<and> tget r2 [b, i, 0, c] = tget r3 [b, d, i, c]"
    by auto
  have "tget r2 [1, 4, 0, 1] \<noteq> None \<and> tget r2 [1, 4, 0, 1] = tget r3 [1, 3, 4, 1]"
    by (rule eq [rule_format]) simp_all
  with g show ?thesis by blast
qed

section \<open>The shift: the claims\<close>

lemma arctan2_range: "- pi < arctan2 y x \<and> arctan2 y x \<le> pi"
proof -
  have b: "- (pi / 2) < arctan (y / x)" "arctan (y / x) < pi / 2"
    by (rule arctan_lbound, rule arctan_ubound)
  have p: "0 < pi" by (rule pi_gt_zero)
  consider "0 < x" | "x < 0" "0 \<le> y" | "x < 0" "y < 0" | "x = 0" by linarith
  then show ?thesis
  proof cases
    case 1
    then show ?thesis using b p by (simp add: arctan2_def)
  next
    case 2
    then have "y / x \<le> 0" by (simp add: divide_nonneg_neg)
    then have "arctan (y / x) \<le> 0" by (simp add: arctan_le_zero_iff)
    then show ?thesis using 2 b p by (simp add: arctan2_def)
  next
    case 3
    then have "0 < y / x" by (simp add: divide_neg_neg)
    then have "0 < arctan (y / x)" by (simp add: zero_less_arctan_iff)
    then show ?thesis using 3 b p by (simp add: arctan2_def)
  next
    case 4
    then have "arctan2 y x = pi / 2 \<or> arctan2 y x = - (pi / 2) \<or> arctan2 y x = 0"
      by (simp add: arctan2_def)
    then show ?thesis using p by (elim disjE; intro conjI; linarith)
  qed
qed

lemma normalize_360_small:
  assumes "- 180 < a" and "a \<le> 180"
  shows "normalize_360 a = (if a < 0 then a + 360 else a)"
proof (cases "a < 0")
  case True
  have "\<lfloor>a / 360\<rfloor> = - 1" using assms True by (intro floor_unique) simp_all
  then show ?thesis using True by (simp add: normalize_360_def)
next
  case False
  have "\<lfloor>a / 360\<rfloor> = 0" using assms False by (intro floor_unique) simp_all
  then show ?thesis using False by (simp add: normalize_360_def)
qed

lemma normalize_360_range: "0 \<le> normalize_360 a \<and> normalize_360 a < 360"
proof -
  define q :: real where "q = of_int \<lfloor>a / 360\<rfloor>"
  have "q \<le> a / 360" and "a / 360 < q + 1" unfolding q_def by linarith+
  then have "360 * q \<le> a" and "a < 360 * q + 360" by linarith+
  then show ?thesis unfolding normalize_360_def q_def [symmetric] by simp
qed

lemma translation_angle_refines:
  "(if arctan2 dy dx / pi * 180 < 0 then arctan2 dy dx / pi * 180 + 360
    else arctan2 dy dx / pi * 180) = spec_translation_angle dx dy"
proof -
  have p: "0 < pi" by (rule pi_gt_zero)
  let ?a = "arctan2 dy dx * 180 / pi"
  have e: "arctan2 dy dx / pi * 180 = ?a" by simp
  have lo: "- 180 < ?a"
  proof -
    have "- pi * 180 < arctan2 dy dx * 180" using arctan2_range [of dy dx] by simp
    then have "(- pi * 180) / pi < ?a" using p by (simp only: divide_strict_right_mono)
    then show ?thesis using p by simp
  qed
  have hi: "?a \<le> 180"
  proof -
    have "arctan2 dy dx * 180 \<le> pi * 180" using arctan2_range [of dy dx] by simp
    then have "?a \<le> (pi * 180) / pi" using p by (simp only: divide_right_mono less_imp_le)
    then show ?thesis using p by simp
  qed
  show ?thesis
    unfolding e spec_translation_angle_def normalize_360_small [OF lo hi] ..
qed

lemma shift_xy_unfold:
  "shift_xy use_shift dx dy ego_angle gx gy H W =
     (let L = sqrt (dx\<^sup>2 + dy\<^sup>2);
          bev_angle = ego_angle - spec_translation_angle dx dy
      in if use_shift = PyStr ''waymo_shift'' then
           (L * cos_deg bev_angle / gx / real W, L * sin_deg bev_angle / gy / real H)
         else if truthy use_shift then
           (L * sin_deg bev_angle / gx / real W, L * cos_deg bev_angle / gy / real H)
         else (0, 0))"
proof -
  note t = translation_angle_refines [of dy dx]
  have d: "\<And>a. a / 180 * pi = a * pi / 180" by simp
  show ?thesis
    unfolding shift_xy_def Let_def t sin_deg_def cos_deg_def d ..
qed

text \<open>
  C1. With nonzero grid lengths and a nonempty grid, the shift computed in forward is the
  specification's: \<open>L = sqrt(delta_x^2 + delta_y^2)\<close>, the translation angle is
  \<open>atan2(delta_y, delta_x)\<close> in degrees normalised into \<open>[0, 360)\<close>, the BEV angle is the
  ego heading minus it; the standard mode (\<open>use_shift=True\<close>) gives
  \<open>(L sin / grid_x / W, L cos / grid_y / H)\<close>, the mode \<open>'waymo_shift'\<close> exchanges sine
  and cosine, and a disabled shift gives \<open>(0, 0)\<close>. For \<open>delta_x = 1\<close>, \<open>delta_y = 0\<close>,
  heading 0, grid length 1 and \<open>H = W = 10\<close> in standard mode the shift tensor is
  \<open>[0, 0.1]\<close>.
\<close>

theorem shift_refines_spec:
  assumes "grid_x \<noteq> 0" and "grid_y \<noteq> 0" and "0 < H" and "0 < W"
  shows "shift_xy (PyBool True) dx dy ego_heading grid_x grid_y H W
           = spec_compute_shift ShiftStandard dx dy ego_heading grid_x grid_y H W
       \<and> shift_xy (PyStr ''waymo_shift'') dx dy ego_heading grid_x grid_y H W
           = spec_compute_shift ShiftAlternate dx dy ego_heading grid_x grid_y H W
       \<and> shift_xy (PyBool False) dx dy ego_heading grid_x grid_y H W
           = spec_compute_shift ShiftOff dx dy ego_heading grid_x grid_y H W
       \<and> spec_compute_shift ShiftOff dx dy ego_heading grid_x grid_y H W = (0, 0)
       \<and> 0 \<le> spec_translation_angle dx dy \<and> spec_translation_angle dx dy < 360
       \<and> bindE (ego_motion [\<lparr>can_bus = [1, 0, 0, 0, 0, 0, 0, 0, 0, 0, 0, 0, 0, 0, 0, 0, 0, 0]\<rparr>])
            (\<lambda>ego. Inr (shift_tensor (PyBool True) ego (GridScalar 1) 10 10))
           = Inr \<lparr>shape = [2], data = [0, 0.1]\<rparr>"
proof (intro conjI)
  show "shift_xy (PyBool True) dx dy ego_heading grid_x grid_y H W
          = spec_compute_shift ShiftStandard dx dy ego_heading grid_x grid_y H W"
    by (simp add: shift_xy_unfold spec_compute_shift_def)
  show "shift_xy (PyStr ''waymo_shift'') dx dy ego_heading grid_x grid_y H W
          = spec_compute_shift ShiftAlternate dx dy ego_heading grid_x grid_y H W"
    by (simp add: shift_xy_unfold spec_compute_shift_def)
  show "shift_xy (PyBool False) dx dy ego_heading grid_x grid_y H W
          = spec_compute_shift ShiftOff dx dy ego_heading grid_x grid_y H W"
    by (simp add: shift_xy_unfold spec_compute_shift_def)
  show "spec_compute_shift ShiftOff dx dy ego_heading grid_x grid_y H W = (0, 0)"
    by (simp add: spec_compute_shift_def)
  show "0 \<le> spec_translation_angle dx dy" and "spec_translation_angle dx dy < 360"
    using normalize_360_range by (simp_all add: spec_translation_angle_def)
  show "bindE (ego_motion [\<lparr>can_bus = [1, 0, 0, 0, 0, 0, 0, 0, 0, 0, 0, 0, 0, 0, 0, 0, 0, 0]\<rparr>])
            (\<lambda>ego. Inr (shift_tensor (PyBool True) ego (GridScalar 1) 10 10))
          = Inr \<lparr>shape = [2], data = [0, 0.1]\<rparr>"
    by (simp add: ego_motion_def pyget_def shift_tensor_def shift_xy_def arctan2_def
        new_tensor_def)
qed

theorem shift_refines_spec_witness:
  "shift_xy (PyBool True) 3 4 90 (1 / 2) (1 / 4) 10 20
     = spec_compute_shift ShiftStandard 3 4 90 (1 / 2) (1 / 4) 10 20
   \<and> shift_xy (PyStr ''waymo_shift'') 3 4 90 (1 / 2) (1 / 4) 10 20
     = spec_compute_shift ShiftAlternate 3 4 90 (1 / 2) (1 / 4) 10 20
   \<and> shift_xy (PyBool False) 3 4 90 (1 / 2) (1 / 4) 10 20 = (0, 0)"
  using shift_refines_spec [of "1 / 2" "1 / 4" 10 20 3 4 90] by simp

section \<open>Ego motion of the first batch element\<close>

lemma bindE_assoc: "bindE (bindE m f) g = bindE m (\<lambda>x. bindE (f x) g)"
  by (cases m) simp_all

lemma ego_motion_Cons: "ego_motion (m # rest') = ego_motion (m # rest)"
  by (simp add: ego_motion_def pyget_def)

lemma can_bus_embed_Cons:
  "can_bus_embed mlp u (m # rest') = can_bus_embed mlp u (m # rest)"
  by (simp add: can_bus_embed_def pyget_def)

text \<open>
  C10. Two calls of forward whose \<open>img_metas\<close> have the same first element \<open>m\<close> and differ
  in the later elements only read the same ego motion (displacement, heading and rotation
  angle) and compute the same can-bus embedding, and the encoder is called with the same
  arguments but for \<open>img_metas\<close> itself, which is handed on: the same shift, the same
  rotated \<open>prev_bev\<close>, the same BEV query with the can-bus embedding added.
\<close>

theorem ego_motion_from_first_element:
  "ego_motion (m # rest') = ego_motion (m # rest)
   \<and> can_bus_embed mlp u (m # rest') = can_bus_embed mlp u (m # rest)
   \<and> forward_encoder_call rot self mlvl_feats bev_embed bev_h bev_w g bev_pos prev_bev gt
         (m # rest')
       = bindE (forward_encoder_call rot self mlvl_feats bev_embed bev_h bev_w g bev_pos prev_bev gt
                  (m # rest))
           (\<lambda>(call, bs). Inr (call\<lparr>enc_img_metas := m # rest'\<rparr>, bs))"
proof (intro conjI)
  show "ego_motion (m # rest') = ego_motion (m # rest)" by (rule ego_motion_Cons)
  show "can_bus_embed mlp u (m # rest') = can_bus_embed mlp u (m # rest)"
    by (rule can_bus_embed_Cons)
  show "forward_encoder_call rot self mlvl_feats bev_embed bev_h bev_w g bev_pos prev_bev gt
         (m # rest')
       = bindE (forward_encoder_call rot self mlvl_feats bev_embed bev_h bev_w g bev_pos prev_bev gt
                  (m # rest))
           (\<lambda>(call, bs). Inr (call\<lparr>enc_img_metas := m # rest'\<rparr>, bs))"
    unfolding forward_encoder_call_def
      ego_motion_Cons [of m rest' rest] can_bus_embed_Cons [of _ _ m rest' rest]
    by (simp add: bindE_assoc Let_def split_def cong: if_cong)
qed

section \<open>The previous BEV and the option values\<close>

lemma int_not_less_m1 [simp]: "\<not> int n < - 1"
  by linarith

lemma bindE_if_True: "c \<Longrightarrow> bindE (if c then Inr v else Inl e) f = f v"
  by simp

lemma bindE_if_False: "\<not> c \<Longrightarrow> bindE (if c then Inr v else Inl e) f = Inl e"
  by simp

lemma infer_size_last:
  "infer_size [int h, int w, - 1] n =
     (if 0 < h * w \<and> n mod (h * w) = 0 then Inr [h, w, n div (h * w)] else Inl RuntimeError)"
  by (simp add: infer_size_def)

lemma reshape_last:
  "reshape [int h, int w, - 1] t =
     (if 0 < h * w \<and> prod_list (shape t) mod (h * w) = 0
      then Inr \<lparr>shape = [h, w, prod_list (shape t) div (h * w)], data = data t\<rparr>
      else Inl RuntimeError)"
  by (simp add: reshape_def infer_size_last)

lemma permute_rank3_shape:
  assumes "shape t = [x, y, z]" and "dims = [2, 0, 1] \<or> dims = [1, 2, 0] \<or> dims = [1, 0, 2]"
  shows "\<exists>r. permute dims t = Inr r \<and> shape r = map (\<lambda>d. [x, y, z] ! d) dims"
  using assms by (auto simp: permute_def upt3)

lemma rotate_prev_shape:
  assumes s: "shape pb = [x, n, c]"
    and rot: "\<forall>t ang ctr. \<exists>r. rot t ang ctr = Inr r \<and> shape r = shape t"
  shows "(0 < h * w * n \<and> (x * n * c) mod (h * w * n) = 0
            \<longrightarrow> (\<exists>r. rotate_prev rot pb h w ang ctr = Inr r
                      \<and> shape r = [h * w, n, (x * n * c) div (h * w * n)]))
       \<and> (\<not> (0 < h * w * n \<and> (x * n * c) mod (h * w * n) = 0)
            \<longrightarrow> rotate_prev rot pb h w ang ctr = Inl RuntimeError)"
proof -
  let ?N = "x * n * c" and ?C = "(x * n * c) div (h * w)"
  have sd: "size_dim pb 1 = Inr n" by (simp add: size_dim_def s)
  have N: "prod_list (shape pb) = ?N" by (simp add: s mult.assoc)
  show ?thesis
  proof (cases "0 < h * w \<and> ?N mod (h * w) = 0")
    case False
    have "\<not> (0 < h * w * n \<and> ?N mod (h * w * n) = 0)"
    proof
      assume a: "0 < h * w * n \<and> ?N mod (h * w * n) = 0"
      then have "h * w * n dvd ?N" by (simp only: dvd_eq_mod_eq_0)
      then have "h * w dvd ?N" by (rule dvd_mult_left)
      then have "?N mod (h * w) = 0" by (simp only: dvd_eq_mod_eq_0)
      moreover have "0 < h * w" using a by simp
      ultimately show False using False by simp
    qed
    moreover have "reshape [int h, int w, - 1] pb = Inl RuntimeError"
      unfolding reshape_last N using False by auto
    then have "rotate_prev rot pb h w ang ctr = Inl RuntimeError"
      unfolding rotate_prev_def sd bindE_Inr by (simp only: bindE_Inl)
    ultimately show ?thesis by (simp only: simp_thms)
  next
    case True
    let ?p1 = "\<lparr>shape = [h, w, ?C], data = data pb\<rparr>"
    have r1: "reshape [int h, int w, - 1] pb = Inr ?p1"
      unfolding reshape_last N using True by simp
    obtain p2 where p2: "permute [2, 0, 1] ?p1 = Inr p2" and s2: "shape p2 = [?C, h, w]"
      using permute_rank3_shape [of ?p1 h w ?C "[2, 0, 1]"] by auto
    obtain p3 where p3: "rot p2 ang ctr = Inr p3" and s3: "shape p3 = [?C, h, w]"
      using rot s2 by metis
    obtain p4 where p4: "permute [1, 2, 0] p3 = Inr p4" and s4: "shape p4 = [h, w, ?C]"
      using permute_rank3_shape [of p3 ?C h w "[1, 2, 0]"] s3 by auto
    have hwC: "h * w * ?C = ?N" using True by (simp add: mod_eq_0_iff_dvd)
    have rp: "rotate_prev rot pb h w ang ctr = reshape [int (h * w), int n, - 1] p4"
      unfolding rotate_prev_def sd bindE_Inr r1 p2 p3 p4 ..
    have isz: "infer_size [int (h * w), int n, - 1] ?N =
        (if 0 < h * w * n \<and> ?N mod (h * w * n) = 0
         then Inr [h * w, n, ?N div (h * w * n)] else Inl RuntimeError)"
      by (rule infer_size_last)
    have "prod_list (shape p4) = h * w * ?C" by (simp add: s4 mult.assoc)
    then have pl: "prod_list (shape p4) = ?N" unfolding hwC .
    show ?thesis
    proof (cases "0 < h * w * n \<and> ?N mod (h * w * n) = 0")
      case True
      have "rotate_prev rot pb h w ang ctr
                   = Inr \<lparr>shape = [h * w, n, ?N div (h * w * n)], data = data p4\<rparr>"
        unfolding rp reshape_def pl isz by (rule bindE_if_True [OF True])
      then have "\<exists>r. rotate_prev rot pb h w ang ctr = Inr r
                   \<and> shape r = [h * w, n, ?N div (h * w * n)]"
        by (intro exI [of _ "\<lparr>shape = [h * w, n, ?N div (h * w * n)], data = data p4\<rparr>"] conjI)
          (assumption, rule tensor.select_convs)
      with True show ?thesis by blast
    next
      case False
      have "rotate_prev rot pb h w ang ctr = Inl RuntimeError"
        unfolding rp reshape_def pl isz by (rule bindE_if_False [OF False])
      with False show ?thesis by blast
    qed
  qed
qed

lemma example_ego_motion: "ego_motion [example_meta] = Inr (1, 0, 0, 0)"
  by (simp add: ego_motion_def pyget_def example_meta_def)

lemma example_shift:
  "truthy v \<Longrightarrow> v \<noteq> PyStr ''waymo_shift''
   \<Longrightarrow> shift_tensor v (1, 0, 0, 0) (GridScalar 1) 2 2 = \<lparr>shape = [2], data = [0, 1 / 2]\<rparr>"
  by (simp add: shift_tensor_def shift_xy_def arctan2_def new_tensor_def)

lemma init_use_shift:
  "self_use_shift (BEVTransformer_init built nfl nc tsnp Z D ed rpb oe ucb cbn us uce) = us"
  by (simp add: BEVTransformer_init_def)

text \<open>
  C2, as the code has it. forward compares \<open>prev_bev.shape[1]\<close> with \<open>bev_h*bev_w\<close> only
  to decide whether to permute; it never rejects a size. For a \<open>prev_bev\<close> of shape
  \<open>(a, b, c)\<close> and a \<open>rotate\<close> that keeps the shape of its input: with rotation off,
  forward hands \<open>prev_bev\<close> on (permuted or not) and raises nothing; with rotation on, and
  \<open>n\<close> the size of dimension 1 after the optional permute, it raises exactly when
  \<open>bev_h*bev_w*n\<close> is 0 or \<open>a*b*c\<close> is not a multiple of \<open>bev_h*bev_w*n\<close>, and
  otherwise returns a tensor of shape \<open>(bev_h*bev_w, n, a*b*c / (bev_h*bev_w*n))\<close>. Zero
  is a multiple: a \<open>prev_bev\<close> without elements is not rejected either, shape
  \<open>(0, 1, 1)\<close> comes back as shape \<open>(4, 1, 0)\<close> for \<open>bev_h = bev_w = 2\<close>.
\<close>

theorem prev_bev_size_not_checked:
  assumes s: "shape pb = [a, b, c]"
    and rot: "\<forall>t ang ctr. \<exists>r. rot t ang ctr = Inr r \<and> shape r = shape t"
    and n: "n = (if b = h * w then a else b)"
  shows "(\<not> truthy mode \<longrightarrow>
            (\<exists>r. align_prev_bev rot mode (Some pb) h w ang = Inr (Some r)
                 \<and> shape r = (if b = h * w then [b, a, c] else [a, b, c])))
       \<and> (truthy mode \<and> 0 < h * w * n \<and> (a * b * c) mod (h * w * n) = 0 \<longrightarrow>
            (\<exists>r. align_prev_bev rot mode (Some pb) h w ang = Inr (Some r)
                 \<and> shape r = [h * w, n, (a * b * c) div (h * w * n)]))
       \<and> (truthy mode \<and> \<not> (0 < h * w * n \<and> (a * b * c) mod (h * w * n) = 0) \<longrightarrow>
            align_prev_bev rot mode (Some pb) h w ang = Inl RuntimeError)"
proof -
  have sd: "size_dim pb (Suc 0) = Inr b" by (simp add: size_dim_def s)
  obtain pb' where pb': "(if b = h * w then permute [1, 0, 2] pb else Inr pb) = Inr pb'"
    and s': "shape pb' = (if b = h * w then [b, a, c] else [a, b, c])"
    using permute_rank3_shape [of pb a b c "[1, 0, 2]"] s by (cases "b = h * w") auto
  let ?x = "if b = h * w then b else a"
  have sx: "shape pb' = [?x, n, c]" using s' n by simp
  have N: "?x * n * c = a * b * c" using n by (simp add: mult.commute)
  note rp = rotate_prev_shape [OF sx rot, of h w ang, unfolded N]
  have nt: "\<not> truthy (PyStr ''waymo_rotate'') \<longleftrightarrow> False" by simp
  have off: "\<not> truthy mode \<Longrightarrow> align_prev_bev rot mode (Some pb) h w ang = Inr (Some pb')"
    by (auto simp: align_prev_bev_def sd pb')
  have on: "truthy mode \<Longrightarrow> \<exists>ctr. align_prev_bev rot mode (Some pb) h w ang
              = bindE (rotate_prev rot pb' h w ang ctr) (\<lambda>p. Inr (Some p))"
    by (auto simp: align_prev_bev_def sd pb')
  show ?thesis
  proof (intro conjI impI)
    assume "\<not> truthy mode"
    then show "\<exists>r. align_prev_bev rot mode (Some pb) h w ang = Inr (Some r)
                 \<and> shape r = (if b = h * w then [b, a, c] else [a, b, c])"
      using off s' by simp
  next
    assume t: "truthy mode \<and> 0 < h * w * n \<and> (a * b * c) mod (h * w * n) = 0"
    then obtain ctr where c: "align_prev_bev rot mode (Some pb) h w ang
              = bindE (rotate_prev rot pb' h w ang ctr) (\<lambda>p. Inr (Some p))"
      using on by blast
    from rp [of ctr] have "0 < h * w * n \<and> (a * b * c) mod (h * w * n) = 0
        \<longrightarrow> (\<exists>r. rotate_prev rot pb' h w ang ctr = Inr r
               \<and> shape r = [h * w, n, (a * b * c) div (h * w * n)])" by (rule conjunct1)
    moreover from t have "0 < h * w * n \<and> (a * b * c) mod (h * w * n) = 0" by (rule conjunct2)
    ultimately obtain r where "rotate_prev rot pb' h w ang ctr = Inr r"
      "shape r = [h * w, n, (a * b * c) div (h * w * n)]" by blast
    then show "\<exists>r. align_prev_bev rot mode (Some pb) h w ang = Inr (Some r)
                 \<and> shape r = [h * w, n, (a * b * c) div (h * w * n)]"
      by (simp add: c)
  next
    assume t: "truthy mode \<and> \<not> (0 < h * w * n \<and> (a * b * c) mod (h * w * n) = 0)"
    then obtain ctr where c: "align_prev_bev rot mode (Some pb) h w ang
              = bindE (rotate_prev rot pb' h w ang ctr) (\<lambda>p. Inr (Some p))"
      using on by blast
    from rp [of ctr] have "\<not> (0 < h * w * n \<and> (a * b * c) mod (h * w * n) = 0)
        \<longrightarrow> rotate_prev rot pb' h w ang ctr = Inl RuntimeError" by (rule conjunct2)
    moreover from t have "\<not> (0 < h * w * n \<and> (a * b * c) mod (h * w * n) = 0)"
      by (rule conjunct2)
    ultimately have "rotate_prev rot pb' h w ang ctr = Inl RuntimeError" by (rule mp)
    then show "align_prev_bev rot mode (Some pb) h w ang = Inl RuntimeError"
      by (simp add: c)
  qed
qed

theorem prev_bev_size_not_checked_witness:
  "(\<exists>r. align_prev_bev (\<lambda>t ang ctr. Inr t) (PyBool True)
           (Some \<lparr>shape = [8, 1, 1], data = [0, 1, 2, 3, 4, 5, 6, 7]\<rparr>) 2 2 0 = Inr (Some r)
        \<and> shape r = [4, 1, 2])
   \<and> align_prev_bev (\<lambda>t ang ctr. Inr t) (PyBool True)
           (Some \<lparr>shape = [3, 1, 3], data = [0, 1, 2, 3, 4, 5, 6, 7, 8]\<rparr>) 2 2 0
       = Inl RuntimeError
   \<and> (\<exists>r. align_prev_bev (\<lambda>t ang ctr. Inr t) (PyBool False)
           (Some \<lparr>shape = [3, 1, 3], data = [0, 1, 2, 3, 4, 5, 6, 7, 8]\<rparr>) 2 2 0 = Inr (Some r)
        \<and> shape r = [3, 1, 3])
   \<and> (\<exists>r. align_prev_bev (\<lambda>t ang ctr. Inr t) (PyBool True)
           (Some \<lparr>shape = [0, 1, 1], data = []\<rparr>) 2 2 0 = Inr (Some r)
        \<and> shape r = [4, 1, 0])"
proof -
  let ?rot = "\<lambda>(t::tensor) (ang::real) (ctr::(nat \<times> nat) option). (Inr t :: error + tensor)"
  have rot: "\<forall>t ang ctr. \<exists>r. ?rot t ang ctr = Inr r \<and> shape r = shape t" by simp
  have a: "\<exists>r. align_prev_bev ?rot (PyBool True)
           (Some \<lparr>shape = [8, 1, 1], data = [0, 1, 2, 3, 4, 5, 6, 7]\<rparr>) 2 2 0 = Inr (Some r)
        \<and> shape r = [4, 1, 2]"
    using prev_bev_size_not_checked [of "\<lparr>shape = [8, 1, 1], data = [0, 1, 2, 3, 4, 5, 6, 7]\<rparr>"
        8 1 1 ?rot 1 2 2 "PyBool True" 0, OF _ rot] by simp
  have b: "align_prev_bev ?rot (PyBool True)
           (Some \<lparr>shape = [3, 1, 3], data = [0, 1, 2, 3, 4, 5, 6, 7, 8]\<rparr>) 2 2 0
       = Inl RuntimeError"
    using prev_bev_size_not_checked [of "\<lparr>shape = [3, 1, 3], data = [0, 1, 2, 3, 4, 5, 6, 7, 8]\<rparr>"
        3 1 3 ?rot 1 2 2 "PyBool True" 0, OF _ rot] by simp
  have c: "\<exists>r. align_prev_bev ?rot (PyBool False)
           (Some \<lparr>shape = [3, 1, 3], data = [0, 1, 2, 3, 4, 5, 6, 7, 8]\<rparr>) 2 2 0 = Inr (Some r)
        \<and> shape r = [3, 1, 3]"
    using prev_bev_size_not_checked [of "\<lparr>shape = [3, 1, 3], data = [0, 1, 2, 3, 4, 5, 6, 7, 8]\<rparr>"
        3 1 3 ?rot 1 2 2 "PyBool False" 0, OF _ rot] by simp
  have d: "\<exists>r. align_prev_bev ?rot (PyBool True)
           (Some \<lparr>shape = [0, 1, 1], data = []\<rparr>) 2 2 0 = Inr (Some r)
        \<and> shape r = [4, 1, 0]"
    using prev_bev_size_not_checked [of "\<lparr>shape = [0, 1, 1], data = []\<rparr>"
        0 1 1 ?rot 1 2 2 "PyBool True" 0, OF _ rot] by simp
  from a b c d show ?thesis by blast
qed

text \<open>
  C2 as stated fails: with \<open>bev_h = bev_w = 2\<close> a \<open>prev_bev\<close> of shape \<open>(8, 1, 1)\<close> has no
  dimension of size 4, yet with rotation on (angle 0, where rotating changes nothing) it
  comes back reinterpreted as shape \<open>(4, 1, 2)\<close>, and with rotation off it is handed on as
  it is; nothing is raised.
\<close>

theorem prev_bev_size_mismatch_counterexample:
  "align_prev_bev (\<lambda>t ang ctr. Inr t) (PyBool True)
       (Some \<lparr>shape = [8, 1, 1], data = [0, 1, 2, 3, 4, 5, 6, 7]\<rparr>) 2 2 0
     = Inr (Some \<lparr>shape = [4, 1, 2], data = [0, 1, 2, 3, 4, 5, 6, 7]\<rparr>)
   \<and> align_prev_bev (\<lambda>t ang ctr. Inr t) (PyBool False)
       (Some \<lparr>shape = [8, 1, 1], data = [0, 1, 2, 3, 4, 5, 6, 7]\<rparr>) 2 2 0
     = Inr (Some \<lparr>shape = [8, 1, 1], data = [0, 1, 2, 3, 4, 5, 6, 7]\<rparr>)
   \<and> map_sum id (\<lambda>(call, bs). enc_prev_bev call)
        (forward_encoder_call (\<lambda>t ang ctr. Inr t)
           (BEVTransformer_init example_layers 1 1 300 8 1 1 (PyBool True) False True True
              (PyBool True) True)
           [example_feat] example_bev_embed 2 2 (GridScalar 1) example_bev_pos
           (Some \<lparr>shape = [8, 1, 1], data = [0, 1, 2, 3, 4, 5, 6, 7]\<rparr>) None [example_meta])
     = Inr (Some \<lparr>shape = [4, 1, 2], data = [0, 1, 2, 3, 4, 5, 6, 7]\<rparr>)"
proof (intro conjI)
  show "align_prev_bev (\<lambda>t ang ctr. Inr t) (PyBool True)
       (Some \<lparr>shape = [8, 1, 1], data = [0, 1, 2, 3, 4, 5, 6, 7]\<rparr>) 2 2 0
     = Inr (Some \<lparr>shape = [4, 1, 2], data = [0, 1, 2, 3, 4, 5, 6, 7]\<rparr>)"
    by code_simp
  show "align_prev_bev (\<lambda>t ang ctr. Inr t) (PyBool False)
       (Some \<lparr>shape = [8, 1, 1], data = [0, 1, 2, 3, 4, 5, 6, 7]\<rparr>) 2 2 0
     = Inr (Some \<lparr>shape = [8, 1, 1], data = [0, 1, 2, 3, 4, 5, 6, 7]\<rparr>)"
    by code_simp
  have s: "shift_tensor (PyBool True) (1, 0, 0, 0) (GridScalar 1) 2 2
             = \<lparr>shape = [2], data = [0, 1 / 2]\<rparr>"
    by (rule example_shift) simp_all
  show "map_sum id (\<lambda>(call, bs). enc_prev_bev call)
        (forward_encoder_call (\<lambda>t ang ctr. Inr t)
           (BEVTransformer_init example_layers 1 1 300 8 1 1 (PyBool True) False True True
              (PyBool True) True)
           [example_feat] example_bev_embed 2 2 (GridScalar 1) example_bev_pos
           (Some \<lparr>shape = [8, 1, 1], data = [0, 1, 2, 3, 4, 5, 6, 7]\<rparr>) None [example_meta])
     = Inr (Some \<lparr>shape = [4, 1, 2], data = [0, 1, 2, 3, 4, 5, 6, 7]\<rparr>)"
    unfolding forward_encoder_call_def example_ego_motion bindE_Inr init_use_shift s Let_def
    by code_simp
qed

text \<open>
  C9, as the code has it. \<open>__init__\<close> stores \<open>use_shift\<close> and \<open>rotate_prev_bev\<close> as they
  are given, and forward reads them by one comparison and by truth value: \<open>'waymo_shift'\<close>
  (\<open>'waymo_rotate'\<close>) selects the alternate behaviour, every other true value the standard
  one, every false value none. No value raises.
\<close>

theorem option_values_by_truth_value:
  "shift_xy v dx dy ego_angle gx gy H W =
     (if v = PyStr ''waymo_shift'' then shift_xy (PyStr ''waymo_shift'') dx dy ego_angle gx gy H W
      else if truthy v then shift_xy (PyBool True) dx dy ego_angle gx gy H W
      else shift_xy (PyBool False) dx dy ego_angle gx gy H W)
   \<and> shift_xy (PyBool False) dx dy ego_angle gx gy H W = (0, 0)
   \<and> align_prev_bev rot v pb h w ang =
     (if v = PyStr ''waymo_rotate'' then align_prev_bev rot (PyStr ''waymo_rotate'') pb h w ang
      else if truthy v then align_prev_bev rot (PyBool True) pb h w ang
      else align_prev_bev rot (PyBool False) pb h w ang)
   \<and> self_use_shift (BEVTransformer_init built nfl nc tsnp Z D ed rpb oe ucb cbn us uce) = us
   \<and> self_rotate_prev_bev (BEVTransformer_init built nfl nc tsnp Z D ed rpb oe ucb cbn us uce)
       = rpb"
proof (intro conjI)
  show "shift_xy v dx dy ego_angle gx gy H W =
     (if v = PyStr ''waymo_shift'' then shift_xy (PyStr ''waymo_shift'') dx dy ego_angle gx gy H W
      else if truthy v then shift_xy (PyBool True) dx dy ego_angle gx gy H W
      else shift_xy (PyBool False) dx dy ego_angle gx gy H W)"
    by (cases "v = PyStr ''waymo_shift''"; cases "truthy v") (simp_all add: shift_xy_def)
  show "shift_xy (PyBool False) dx dy ego_angle gx gy H W = (0, 0)"
    by (simp add: shift_xy_def)
  show "align_prev_bev rot v pb h w ang =
     (if v = PyStr ''waymo_rotate'' then align_prev_bev rot (PyStr ''waymo_rotate'') pb h w ang
      else if truthy v then align_prev_bev rot (PyBool True) pb h w ang
      else align_prev_bev rot (PyBool False) pb h w ang)"
    by (cases pb; cases "v = PyStr ''waymo_rotate''"; cases "truthy v")
      (simp_all add: align_prev_bev_def)
  show "self_use_shift (BEVTransformer_init built nfl nc tsnp Z D ed rpb oe ucb cbn us uce) = us"
    by (simp add: BEVTransformer_init_def)
  show "self_rotate_prev_bev (BEVTransformer_init built nfl nc tsnp Z D ed rpb oe ucb cbn us uce)
          = rpb"
    by (simp add: BEVTransformer_init_def)
qed

text \<open>
  C9 as stated fails: the string \<open>'bogus'\<close> is none of the supported values, the module is
  constructed with it, and forward computes the standard shift and the default rotation
  and reaches the call of the encoder with them.
\<close>

theorem unsupported_option_counterexample:
  "self_use_shift (BEVTransformer_init example_layers 1 1 300 8 1 1 (PyStr ''bogus'') False True
       True (PyStr ''bogus'') True) = PyStr ''bogus''
   \<and> self_rotate_prev_bev (BEVTransformer_init example_layers 1 1 300 8 1 1 (PyStr ''bogus'')
       False True True (PyStr ''bogus'') True) = PyStr ''bogus''
   \<and> shift_xy (PyStr ''bogus'') 1 0 0 1 1 10 10 = (0, 1 / 10)
   \<and> shift_xy (PyBool True) 1 0 0 1 1 10 10 = (0, 1 / 10)
   \<and> align_prev_bev (\<lambda>t ang ctr. Inr t) (PyStr ''bogus'')
        (Some \<lparr>shape = [4, 1, 2], data = [0, 1, 2, 3, 4, 5, 6, 7]\<rparr>) 2 2 0
      = Inr (Some \<lparr>shape = [4, 1, 2], data = [0, 1, 2, 3, 4, 5, 6, 7]\<rparr>)
   \<and> align_prev_bev (\<lambda>t ang ctr. Inr t) (PyBool True)
        (Some \<lparr>shape = [4, 1, 2], data = [0, 1, 2, 3, 4, 5, 6, 7]\<rparr>) 2 2 0
      = Inr (Some \<lparr>shape = [4, 1, 2], data = [0, 1, 2, 3, 4, 5, 6, 7]\<rparr>)
   \<and> map_sum id (\<lambda>(call, bs). (enc_shift call, enc_prev_bev call))
        (forward_encoder_call (\<lambda>t ang ctr. Inr t)
           (BEVTransformer_init example_layers 1 1 300 8 1 1 (PyStr ''bogus'') False True True
              (PyStr ''bogus'') True)
           [example_feat] example_bev_embed 2 2 (GridScalar 1) example_bev_pos
           (Some \<lparr>shape = [4, 1, 2], data = [0, 1, 2, 3, 4, 5, 6, 7]\<rparr>) None [example_meta])
     = Inr (\<lparr>shape = [2], data = [0, 1 / 2]\<rparr>,
            Some \<lparr>shape = [4, 1, 2], data = [0, 1, 2, 3, 4, 5, 6, 7]\<rparr>)"
proof (intro conjI)
  show "self_use_shift (BEVTransformer_init example_layers 1 1 300 8 1 1 (PyStr ''bogus'') False True
       True (PyStr ''bogus'') True) = PyStr ''bogus''"
    by (simp add: BEVTransformer_init_def)
  show "self_rotate_prev_bev (BEVTransformer_init example_layers 1 1 300 8 1 1 (PyStr ''bogus'')
       False True True (PyStr ''bogus'') True) = PyStr ''bogus''"
    by (simp add: BEVTransformer_init_def)
  show "shift_xy (PyStr ''bogus'') 1 0 0 1 1 10 10 = (0, 1 / 10)"
    by (simp add: shift_xy_def arctan2_def)
  show "shift_xy (PyBool True) 1 0 0 1 1 10 10 = (0, 1 / 10)"
    by (simp add: shift_xy_def arctan2_def)
  show "align_prev_bev (\<lambda>t ang ctr. Inr t) (PyStr ''bogus'')
        (Some \<lparr>shape = [4, 1, 2], data = [0, 1, 2, 3, 4, 5, 6, 7]\<rparr>) 2 2 0
      = Inr (Some \<lparr>shape = [4, 1, 2], data = [0, 1, 2, 3, 4, 5, 6, 7]\<rparr>)"
    by code_simp
  show "align_prev_bev (\<lambda>t ang ctr. Inr t) (PyBool True)
        (Some \<lparr>shape = [4, 1, 2], data = [0, 1, 2, 3, 4, 5, 6, 7]\<rparr>) 2 2 0
      = Inr (Some \<lparr>shape = [4, 1, 2], data = [0, 1, 2, 3, 4, 5, 6, 7]\<rparr>)"
    by code_simp
  have s: "shift_tensor (PyStr ''bogus'') (1, 0, 0, 0) (GridScalar 1) 2 2
             = \<lparr>shape = [2], data = [0, 1 / 2]\<rparr>"
    by (rule example_shift) simp_all
  show "map_sum id (\<lambda>(call, bs). (enc_shift call, enc_prev_bev call))
        (forward_encoder_call (\<lambda>t ang ctr. Inr t)
           (BEVTransformer_init example_layers 1 1 300 8 1 1 (PyStr ''bogus'') False True True
              (PyStr ''bogus'') True)
           [example_feat] example_bev_embed 2 2 (GridScalar 1) example_bev_pos
           (Some \<lparr>shape = [4, 1, 2], data = [0, 1, 2, 3, 4, 5, 6, 7]\<rparr>) None [example_meta])
     = Inr (\<lparr>shape = [2], data = [0, 1 / 2]\<rparr>,
            Some \<lparr>shape = [4, 1, 2], data = [0, 1, 2, 3, 4, 5, 6, 7]\<rparr>)"
    unfolding forward_encoder_call_def example_ego_motion bindE_Inr init_use_shift s Let_def
    by code_simp
qed

section \<open>forward and its parts\<close>


section \<open>Flattening the camera features\<close>
























section \<open>Spatial shapes and level start index\<close>










lemma length_cumsum_long [simp]: "length (cumsum_long acc xs) = length xs"
  by (induction xs arbitrary: acc) simp_all







end
